theory Spec2Isabelle
  imports Main "HOL-Library.Multiset"
begin

section \<open>CD pipelines of the EDP admin console\<close>

text \<open>
  A shallow embedding of \<^verbatim>\<open>service/cd_pipeline.go\<close> and of the validation patterns of
  \<^verbatim>\<open>models/cd_pipeline.go\<close>. Go strings are byte strings (\<open>string\<close>), Go's \<open>int\<close> is
  modelled by \<open>int\<close>: the code only compares and copies the \<open>Order\<close> values, it does
  no arithmetic on them. A Go pair \<open>(value, error)\<close> is a sum, \<open>Inl\<close> the error; a nil
  pointer returned without an error is \<open>Inr None\<close>.
\<close>

subsection \<open>The creation command (models/cd\_pipeline.go)\<close>

record ApplicationWithBranch =
  ApplicationName :: string
  BranchName :: string

record StageCreate =
  sc_Name :: string
  sc_Description :: string
  sc_StepName :: string
  sc_QualityGateType :: string
  sc_TriggerType :: string
  sc_Order :: int

record CDPipelineCreateCommand =
  cmd_Name :: string
  cmd_Applications :: "ApplicationWithBranch list"
  cmd_ThirdPartyServices :: "string list"
  cmd_Stages :: "StageCreate list"

subsection \<open>Rows of the read model (models/query)\<close>

text \<open>
  \<open>query.Stage\<close> is declared in \<^verbatim>\<open>models/query/stage.go\<close>; its back pointer to the
  pipeline is never read by the service and is left out.
\<close>

record query_Stage =
  qs_Id :: int
  qs_Name :: string
  qs_Description :: string
  qs_TriggerType :: string
  qs_QualityGate :: string
  qs_JenkinsStepName :: string
  qs_Order :: int
  qs_OpenshiftProjectLink :: string

text \<open>
  The declarations of \<open>query.Codebase\<close>, \<open>query.CodebaseBranch\<close> and \<open>query.CDPipeline\<close> are
  not among the sources. The records have the fields that the service reads and writes:
  \<open>Name\<close>, \<open>JenkinsLink\<close>, \<open>Stage\<close> and \<open>CodebaseBranch\<close> of a pipeline; \<open>Name\<close>, \<open>AppName\<close>,
  \<open>VCSLink\<close>, \<open>CICDLink\<close> and \<open>Codebase.Name\<close> of a branch association. The codebase of a
  branch association is taken to be there, as the row of the read model joins it.
\<close>

record query_Codebase =
  cb_Name :: string

record query_CodebaseBranch =
  br_Name :: string
  br_AppName :: string
  br_VCSLink :: string
  br_CICDLink :: string
  br_Codebase :: query_Codebase

record query_CDPipeline =
  pl_Name :: string
  pl_JenkinsLink :: string
  pl_Stage :: "query_Stage list"
  pl_CodebaseBranch :: "query_CodebaseBranch list"

subsection \<open>Custom resources (package k8s)\<close>

text \<open>
  The declarations of \<open>k8s.CDPipeline\<close> and \<open>k8s.Stage\<close> are not among the sources. The
  records have the fields that the struct literals of \<open>CreatePipeline\<close>,
  \<open>convertPipelineData\<close> and \<open>createCrd\<close> fill in. \<open>LastTimeUpdated\<close> holds a reading of
  the clock.
\<close>

record TypeMeta =
  APIVersion :: string
  Kind :: string

record ObjectMeta =
  meta_Name :: string
  meta_Namespace :: string

record k8s_CDPipelineSpec =
  ps_Name :: string
  ps_CodebaseBranch :: "string list"
  ps_ThirdPartyServices :: "string list"

record k8s_Status =
  LastTimeUpdated :: nat
  Status :: string

record k8s_CDPipeline =
  cr_TypeMeta :: TypeMeta
  cr_ObjectMeta :: ObjectMeta
  cr_Spec :: k8s_CDPipelineSpec
  cr_Status :: k8s_Status

record k8s_StageSpec =
  ss_Name :: string
  ss_Description :: string
  ss_QualityGate :: string
  ss_JenkinsStep :: string
  ss_TriggerType :: string
  ss_Order :: int
  ss_CdPipeline :: string

record k8s_Stage =
  st_TypeMeta :: TypeMeta
  st_ObjectMeta :: ObjectMeta
  st_Spec :: k8s_StageSpec
  st_Status :: k8s_Status

subsection \<open>Errors\<close>

text \<open>
  What the REST client of the orchestrator can answer instead of an object:
  the status reason \<open>NotFound\<close> (the one \<open>k8serrors.IsNotFound\<close> recognises), the status
  reason \<open>AlreadyExists\<close> of a create under a taken name, or anything else.
\<close>

datatype rest_error = NotFound | AlreadyExists | ServerError string

text \<open>
  The errors of the service: the two sentinels of package \<open>models\<close>, the error built by
  \<^verbatim>\<open>fmt.Errorf("stage %s is already exists", stage.Name)\<close> (it carries the stage name), an
  error of the repository, and an error of the REST client handed on as it is.
\<close>

datatype error =
    ErrNonValidRelatedBranch
  | ErrCDPipelineIsExists
  | ErrStageExists string
  | RepositoryError string
  | RestError rest_error

subsection \<open>The collaborators and the configuration\<close>

datatype verb = GET | POST

text \<open>
  Everything a call reads and does not change: \<open>context.Namespace\<close>, \<open>context.Tenant\<close>,
  the \<open>dnsWildcard\<close> setting, the readings of \<open>time.Now()\<close> in the order they are taken,
  the two injected collaborators (the repository's \<open>GetCDPipelineByName\<close>, whose error is
  its message, and the codebase service's \<open>checkAppAndBranch\<close>; neither is among the
  sources), failures of the orchestrator's API for a verb, a resource and a name, and
  \<open>sort.Slice\<close> of Go's library.
\<close>

record env =
  Namespace :: string
  Tenant :: string
  dnsWildcard :: string
  time_Now :: "nat \<Rightarrow> nat"
  repo_GetCDPipelineByName :: "string \<Rightarrow> string + query_CDPipeline option"
  checkAppAndBranch :: "ApplicationWithBranch list \<Rightarrow> bool"
  rest_failure :: "verb \<Rightarrow> string \<Rightarrow> string \<Rightarrow> string option"
  sort_Slice :: "(query_Stage \<Rightarrow> query_Stage \<Rightarrow> bool) \<Rightarrow> query_Stage list \<Rightarrow> query_Stage list"

text \<open>
  The orchestrator's resource store: the objects of the two kinds, in the order of
  their creation.
\<close>

record cluster =
  cdpipelines :: "k8s_CDPipeline list"
  stages :: "k8s_Stage list"

text \<open>
  The REST calls the service makes. A \<open>Get\<close> answers with the object of that name in the
  namespace, or \<open>NotFound\<close>; a \<open>Post\<close> stores the object and answers with it, unless
  the name is taken. Either can fail for another reason.
\<close>

definition get_cdpipeline :: "env \<Rightarrow> cluster \<Rightarrow> string \<Rightarrow> string \<Rightarrow> rest_error + k8s_CDPipeline" where
  "get_cdpipeline e c ns name =
     (case rest_failure e GET ''cdpipelines'' name of
        Some m \<Rightarrow> Inl (ServerError m)
      | None \<Rightarrow>
          (case find (\<lambda>p. meta_Name (cr_ObjectMeta p) = name \<and> meta_Namespace (cr_ObjectMeta p) = ns)
                  (cdpipelines c) of
             None \<Rightarrow> Inl NotFound
           | Some p \<Rightarrow> Inr p))"

definition get_stage :: "env \<Rightarrow> cluster \<Rightarrow> string \<Rightarrow> string \<Rightarrow> rest_error + k8s_Stage" where
  "get_stage e c ns name =
     (case rest_failure e GET ''stages'' name of
        Some m \<Rightarrow> Inl (ServerError m)
      | None \<Rightarrow>
          (case find (\<lambda>p. meta_Name (st_ObjectMeta p) = name \<and> meta_Namespace (st_ObjectMeta p) = ns)
                  (stages c) of
             None \<Rightarrow> Inl NotFound
           | Some p \<Rightarrow> Inr p))"

definition post_cdpipeline :: "env \<Rightarrow> cluster \<Rightarrow> k8s_CDPipeline \<Rightarrow> (rest_error + k8s_CDPipeline) \<times> cluster" where
  "post_cdpipeline e c crd =
     (case rest_failure e POST ''cdpipelines'' (meta_Name (cr_ObjectMeta crd)) of
        Some m \<Rightarrow> (Inl (ServerError m), c)
      | None \<Rightarrow>
          (case find (\<lambda>p. meta_Name (cr_ObjectMeta p) = meta_Name (cr_ObjectMeta crd)
                        \<and> meta_Namespace (cr_ObjectMeta p) = meta_Namespace (cr_ObjectMeta crd))
                  (cdpipelines c) of
             Some p \<Rightarrow> (Inl AlreadyExists, c)
           | None \<Rightarrow> (Inr crd, c\<lparr>cdpipelines := cdpipelines c @ [crd]\<rparr>)))"

definition post_stage :: "env \<Rightarrow> cluster \<Rightarrow> k8s_Stage \<Rightarrow> (rest_error + k8s_Stage) \<times> cluster" where
  "post_stage e c crd =
     (case rest_failure e POST ''stages'' (meta_Name (st_ObjectMeta crd)) of
        Some m \<Rightarrow> (Inl (ServerError m), c)
      | None \<Rightarrow>
          (case find (\<lambda>p. meta_Name (st_ObjectMeta p) = meta_Name (st_ObjectMeta crd)
                        \<and> meta_Namespace (st_ObjectMeta p) = meta_Namespace (st_ObjectMeta crd))
                  (stages c) of
             Some p \<Rightarrow> (Inl AlreadyExists, c)
           | None \<Rightarrow> (Inr crd, c\<lparr>stages := stages c @ [crd]\<rparr>)))"

subsection \<open>The service (service/cd\_pipeline.go)\<close>

definition sortStagesByOrder :: "env \<Rightarrow> query_Stage list \<Rightarrow> query_Stage list" where
  "sortStagesByOrder e stgs = sort_Slice e (\<lambda>si sj. qs_Order si < qs_Order sj) stgs"

definition OpenshiftProjectLink :: "string \<Rightarrow> string" where
  "OpenshiftProjectLink wildcard = ''https://master.'' @ wildcard @ ''/console/project/''"

definition createOpenshiftProjectLinks :: "env \<Rightarrow> query_Stage list \<Rightarrow> string \<Rightarrow> query_Stage list" where
  "createOpenshiftProjectLinks e stgs cdPipelineName =
     map (\<lambda>stage. stage\<lparr>qs_OpenshiftProjectLink :=
            OpenshiftProjectLink (dnsWildcard e) @ Tenant e @ ''-'' @ cdPipelineName @ ''-'' @ qs_Name stage\<rparr>)
         stgs"

definition convertPipelineData :: "CDPipelineCreateCommand \<Rightarrow> k8s_CDPipelineSpec" where
  "convertPipelineData cdPipeline =
     \<lparr>ps_Name = cmd_Name cdPipeline,
      ps_CodebaseBranch = map (\<lambda>v. ApplicationName v @ ''-'' @ BranchName v) (cmd_Applications cdPipeline),
      ps_ThirdPartyServices = cmd_ThirdPartyServices cdPipeline\<rparr>"

definition getCDPipelineCR :: "env \<Rightarrow> cluster \<Rightarrow> string \<Rightarrow> string \<Rightarrow> error + k8s_CDPipeline option" where
  "getCDPipelineCR e c pipelineName ns =
     (case get_cdpipeline e c ns pipelineName of
        Inl err \<Rightarrow> (if err = NotFound then Inr None else Inl (RestError err))
      | Inr cdPipeline \<Rightarrow> Inr (Some cdPipeline))"

text \<open>
  \<open>strings.ToUpper\<close> on the bytes \<open>a\<close> to \<open>z\<close>; other bytes are kept (Go also maps letters
  outside ASCII, which the pattern of a branch name does not admit).
\<close>

definition ToUpper :: "string \<Rightarrow> string" where
  "ToUpper s = map (\<lambda>c. if 97 \<le> (of_char c :: nat) \<and> (of_char c :: nat) \<le> 122
                         then char_of ((of_char c :: nat) - 32) else c) s"

definition createLinksForBranchEntities :: "env \<Rightarrow> query_CodebaseBranch list \<Rightarrow> query_CodebaseBranch list" where
  "createLinksForBranchEntities e branchEntities =
     map (\<lambda>branch. branch\<lparr>
            br_VCSLink := ''https://'' @ ''gerrit'' @ ''-'' @ Tenant e @ ''-edp-cicd.'' @ dnsWildcard e
               @ ''/gitweb?p='' @ cb_Name (br_Codebase branch) @ ''.git;a=shortlog;h=refs/heads/'' @ br_Name branch,
            br_CICDLink := ''https://'' @ ''jenkins'' @ ''-'' @ Tenant e @ ''-edp-cicd.'' @ dnsWildcard e
               @ ''/job/'' @ cb_Name (br_Codebase branch) @ ''/view/'' @ ToUpper (br_Name branch)\<rparr>)
         branchEntities"

definition createJenkinsLink :: "env \<Rightarrow> query_CDPipeline \<Rightarrow> query_CDPipeline" where
  "createJenkinsLink e cdPipeline =
     cdPipeline\<lparr>
       pl_JenkinsLink := ''https://'' @ ''jenkins'' @ ''-'' @ Tenant e @ ''-edp-cicd.'' @ dnsWildcard e
          @ ''/job/'' @ (pl_Name cdPipeline @ ''-'' @ ''cd-pipeline''),
       pl_CodebaseBranch := createLinksForBranchEntities e (pl_CodebaseBranch cdPipeline)\<rparr>"

definition GetCDPipelineByName :: "env \<Rightarrow> string \<Rightarrow> error + query_CDPipeline option" where
  "GetCDPipelineByName e pipelineName =
     (case repo_GetCDPipelineByName e pipelineName of
        Inl err \<Rightarrow> Inl (RepositoryError err)
      | Inr None \<Rightarrow> Inr None
      | Inr (Some row) \<Rightarrow>
          (let p1 = createJenkinsLink e row;
               p2 = (if length (pl_Stage p1) \<noteq> 0
                     then p1\<lparr>pl_Stage :=
                            createOpenshiftProjectLinks e (sortStagesByOrder e (pl_Stage p1)) (pl_Name p1)\<rparr>
                     else p1);
               p3 = p2\<lparr>pl_CodebaseBranch :=
                        map (\<lambda>branch. branch\<lparr>br_AppName := cb_Name (br_Codebase branch)\<rparr>)
                            (pl_CodebaseBranch p2)\<rparr>
           in Inr (Some p3)))"

text \<open>\<open>createCrd\<close>; \<open>t\<close> is the reading of \<open>time.Now()\<close> it takes.\<close>

definition createCrd :: "env \<Rightarrow> nat \<Rightarrow> string \<Rightarrow> StageCreate \<Rightarrow> k8s_Stage" where
  "createCrd e t cdPipelineName stage =
     \<lparr>st_TypeMeta = \<lparr>APIVersion = ''edp.epam.com/v1alpha1'', Kind = ''Stage''\<rparr>,
      st_ObjectMeta = \<lparr>meta_Name = cdPipelineName @ ''-'' @ sc_Name stage, meta_Namespace = Namespace e\<rparr>,
      st_Spec = \<lparr>ss_Name = sc_Name stage,
                 ss_Description = sc_Description stage,
                 ss_QualityGate = sc_QualityGateType stage,
                 ss_JenkinsStep = sc_StepName stage,
                 ss_TriggerType = sc_TriggerType stage,
                 ss_Order = sc_Order stage,
                 ss_CdPipeline = cdPipelineName\<rparr>,
      st_Status = \<lparr>LastTimeUpdated = t, Status = ''initialized''\<rparr>\<rparr>"

text \<open>
  The loop of \<open>saveStagesIntoK8s\<close>; \<open>k\<close> counts the readings of the clock taken so far
  in the call. The stages posted before a failure stay in the store.
\<close>

fun saveStagesIntoK8s :: "env \<Rightarrow> nat \<Rightarrow> cluster \<Rightarrow> string \<Rightarrow> StageCreate list \<Rightarrow> (error + k8s_Stage list) \<times> cluster" where
  "saveStagesIntoK8s e k c cdPipelineName [] = (Inr [], c)"
| "saveStagesIntoK8s e k c cdPipelineName (stage # rest) =
     (case post_stage e c (createCrd e (time_Now e k) cdPipelineName stage) of
        (Inl err, c') \<Rightarrow> (Inl (RestError err), c')
      | (Inr stageCr, c') \<Rightarrow>
          (case saveStagesIntoK8s e (Suc k) c' cdPipelineName rest of
             (Inl err, c'') \<Rightarrow> (Inl err, c'')
           | (Inr stagesCr, c'') \<Rightarrow> (Inr (stageCr # stagesCr), c'')))"

text \<open>The loop of \<open>checkStagesInK8s\<close>: \<open>None\<close> is Go's nil error.\<close>

fun checkStagesInK8s :: "env \<Rightarrow> cluster \<Rightarrow> string \<Rightarrow> StageCreate list \<Rightarrow> error option" where
  "checkStagesInK8s e c cdPipelineName [] = None"
| "checkStagesInK8s e c cdPipelineName (stage # rest) =
     (case get_stage e c (Namespace e) (cdPipelineName @ ''-'' @ sc_Name stage) of
        Inl err \<Rightarrow> (if err = NotFound then checkStagesInK8s e c cdPipelineName rest
                    else Some (RestError err))
      | Inr stagesCr \<Rightarrow> Some (ErrStageExists (sc_Name stage)))"

definition CreateStages :: "env \<Rightarrow> nat \<Rightarrow> cluster \<Rightarrow> CDPipelineCreateCommand \<Rightarrow> (error + k8s_Stage list) \<times> cluster" where
  "CreateStages e k c cdPipeline =
     (case checkStagesInK8s e c (cmd_Name cdPipeline) (cmd_Stages cdPipeline) of
        Some err \<Rightarrow> (Inl err, c)
      | None \<Rightarrow> saveStagesIntoK8s e k c (cmd_Name cdPipeline) (cmd_Stages cdPipeline))"

text \<open>The pipeline resource that \<open>CreatePipeline\<close> builds before it posts it.\<close>

definition pipelineCrd :: "env \<Rightarrow> CDPipelineCreateCommand \<Rightarrow> k8s_CDPipeline" where
  "pipelineCrd e cdPipeline =
     \<lparr>cr_TypeMeta = \<lparr>APIVersion = ''edp.epam.com/v1alpha1'', Kind = ''CDPipeline''\<rparr>,
      cr_ObjectMeta = \<lparr>meta_Name = cmd_Name cdPipeline, meta_Namespace = Namespace e\<rparr>,
      cr_Spec = convertPipelineData cdPipeline,
      cr_Status = \<lparr>LastTimeUpdated = time_Now e 0, Status = ''initialized''\<rparr>\<rparr>"

definition CreatePipeline :: "env \<Rightarrow> cluster \<Rightarrow> CDPipelineCreateCommand \<Rightarrow> (error + k8s_CDPipeline) \<times> cluster" where
  "CreatePipeline e c cdPipeline =
     (if \<not> checkAppAndBranch e (cmd_Applications cdPipeline) then (Inl ErrNonValidRelatedBranch, c)
      else case GetCDPipelineByName e (cmd_Name cdPipeline) of
        Inl err \<Rightarrow> (Inl err, c)
      | Inr (Some cdPipelineReadModel) \<Rightarrow> (Inl ErrCDPipelineIsExists, c)
      | Inr None \<Rightarrow>
          (case getCDPipelineCR e c (cmd_Name cdPipeline) (Namespace e) of
             Inl err \<Rightarrow> (Inl err, c)
           | Inr (Some pipelineCR) \<Rightarrow> (Inl ErrCDPipelineIsExists, c)
           | Inr None \<Rightarrow>
               (case post_cdpipeline e c (pipelineCrd e cdPipeline) of
                  (Inl err, c1) \<Rightarrow> (Inl (RestError err), c1)
                | (Inr cdPipelineCr, c1) \<Rightarrow>
                    (case CreateStages e (Suc 0) c1 cdPipeline of
                       (Inl err, c2) \<Rightarrow> (Inl err, c2)
                     | (Inr stagesCr, c2) \<Rightarrow> (Inr cdPipelineCr, c2)))))"

subsection \<open>The validation patterns of the names\<close>

text \<open>
  The \<open>valid\<close> tags of \<open>CDPipelineCreateCommand.Name\<close> and of \<open>StageCreate.Name\<close> both read
  \<^verbatim>\<open>Match(/^[a-z0-9]([-a-z0-9]*[a-z0-9])$/)\<close>. The pattern is anchored at both ends, so
  \<open>MatchString\<close> holds when the whole string matches what stands between \<open>^\<close> and \<open>$\<close>.
  Regular expressions are matched by derivatives; a class is a list of byte ranges.
\<close>

datatype regexp =
    Zero
  | One
  | Class "(char \<times> char) list"
  | Plus regexp regexp
  | Times regexp regexp
  | Star regexp

definition in_class :: "(char \<times> char) list \<Rightarrow> char \<Rightarrow> bool" where
  "in_class rs c =
     list_ex (\<lambda>(lo, hi). (of_char lo :: nat) \<le> of_char c \<and> (of_char c :: nat) \<le> of_char hi) rs"

fun nullable :: "regexp \<Rightarrow> bool" where
  "nullable Zero = False"
| "nullable One = True"
| "nullable (Class rs) = False"
| "nullable (Plus r s) = (nullable r \<or> nullable s)"
| "nullable (Times r s) = (nullable r \<and> nullable s)"
| "nullable (Star r) = True"

fun deriv :: "char \<Rightarrow> regexp \<Rightarrow> regexp" where
  "deriv c Zero = Zero"
| "deriv c One = Zero"
| "deriv c (Class rs) = (if in_class rs c then One else Zero)"
| "deriv c (Plus r s) = Plus (deriv c r) (deriv c s)"
| "deriv c (Times r s) =
     (if nullable r then Plus (Times (deriv c r) s) (deriv c s) else Times (deriv c r) s)"
| "deriv c (Star r) = Times (deriv c r) (Star r)"

fun MatchString :: "regexp \<Rightarrow> string \<Rightarrow> bool" where
  "MatchString r [] = nullable r"
| "MatchString r (c # cs) = MatchString (deriv c r) cs"

definition CDPipelineCreateCommand_Name_pattern :: regexp where
  "CDPipelineCreateCommand_Name_pattern =
     Times (Class [(CHR ''a'', CHR ''z''), (CHR ''0'', CHR ''9'')])
       (Times (Star (Class [(CHR ''-'', CHR ''-''), (CHR ''a'', CHR ''z''), (CHR ''0'', CHR ''9'')]))
              (Class [(CHR ''a'', CHR ''z''), (CHR ''0'', CHR ''9'')]))"

definition StageCreate_Name_pattern :: regexp where
  "StageCreate_Name_pattern =
     Times (Class [(CHR ''a'', CHR ''z''), (CHR ''0'', CHR ''9'')])
       (Times (Star (Class [(CHR ''-'', CHR ''-''), (CHR ''a'', CHR ''z''), (CHR ''0'', CHR ''9'')]))
              (Class [(CHR ''a'', CHR ''z''), (CHR ''0'', CHR ''9'')]))"

text \<open>
  The strings the specification has in mind, in its words: not empty, made of lowercase
  alphanumerics and hyphens, with no hyphen at either end.
\<close>

definition lower_alnum :: "char \<Rightarrow> bool" where
  "lower_alnum c \<longleftrightarrow>
     ((of_char (CHR ''a'') :: nat) \<le> of_char c \<and> (of_char c :: nat) \<le> of_char (CHR ''z'')) \<or>
     ((of_char (CHR ''0'') :: nat) \<le> of_char c \<and> (of_char c :: nat) \<le> of_char (CHR ''9''))"

definition dns_label_like :: "string \<Rightarrow> bool" where
  "dns_label_like s \<longleftrightarrow>
     s \<noteq> [] \<and> list_all (\<lambda>c. lower_alnum c \<or> c = CHR ''-'') s \<and>
     hd s \<noteq> CHR ''-'' \<and> last s \<noteq> CHR ''-''"

subsection \<open>The library sort\<close>

text \<open>
  \<open>sort.Slice\<close> belongs to Go's library, not to the console. Its documentation promises
  that the slice ends up ordered by \<open>less\<close>, for a \<open>less\<close> that is a strict weak ordering,
  and says that the sort is not guaranteed to be stable. The service is verified against
  that contract: the result is a rearrangement of the input in which no element is
  \<open>less\<close> than one before it.
\<close>

definition strict_weak_order :: "('a \<Rightarrow> 'a \<Rightarrow> bool) \<Rightarrow> bool" where
  "strict_weak_order lt \<longleftrightarrow>
     (\<forall>a b. lt a b \<longrightarrow> \<not> lt b a) \<and> (\<forall>a b c. \<not> lt a b \<and> \<not> lt b c \<longrightarrow> \<not> lt a c)"

definition sort_Slice_contract :: "(('a \<Rightarrow> 'a \<Rightarrow> bool) \<Rightarrow> 'a list \<Rightarrow> 'a list) \<Rightarrow> bool" where
  "sort_Slice_contract srt \<longleftrightarrow>
     (\<forall>lt xs. strict_weak_order lt \<longrightarrow>
        mset (srt lt xs) = mset xs \<and> sorted_wrt (\<lambda>a b. \<not> lt b a) (srt lt xs))"

text \<open>
  One sort that meets the contract: a pass that compares each element with the one six
  places before it and swaps the two when they are out of order, followed by an insertion
  sort. It is what Go's library, up to Go 1.18, runs on a slice of at most twelve
  elements. \<open>sink\<close> is the inner loop of the insertion sort: it moves \<open>x\<close> towards the
  front, past every element it is \<open>less\<close> than; the part of the slice already in order is
  kept nearest element first.
\<close>

definition swap :: "'a list \<Rightarrow> nat \<Rightarrow> nat \<Rightarrow> 'a list" where
  "swap xs i j = xs[i := xs ! j, j := xs ! i]"

definition shellPass :: "('a \<Rightarrow> 'a \<Rightarrow> bool) \<Rightarrow> 'a list \<Rightarrow> 'a list" where
  "shellPass lt xs =
     foldl (\<lambda>ys i. if lt (ys ! i) (ys ! (i - 6)) then swap ys i (i - 6) else ys) xs [6..<length xs]"

fun sink :: "('a \<Rightarrow> 'a \<Rightarrow> bool) \<Rightarrow> 'a \<Rightarrow> 'a list \<Rightarrow> 'a list" where
  "sink lt x [] = [x]"
| "sink lt x (y # rs) = (if lt x y then y # sink lt x rs else x # y # rs)"

definition insertionSort :: "('a \<Rightarrow> 'a \<Rightarrow> bool) \<Rightarrow> 'a list \<Rightarrow> 'a list" where
  "insertionSort lt xs = rev (foldl (\<lambda>rs x. sink lt x rs) [] xs)"

definition shortSort :: "('a \<Rightarrow> 'a \<Rightarrow> bool) \<Rightarrow> 'a list \<Rightarrow> 'a list" where
  "shortSort lt xs = insertionSort lt (shellPass lt xs)"

subsection \<open>Reading the names back out of a derived name or link\<close>

text \<open>
  The service builds names and links and never parses them. These readers follow the
  specification's words, "parsing out pipeline/stage name per the template": the fixed
  text around the names is dropped, and a \<open><pipelineName>-<stageName>\<close> is cut at its
  last hyphen.
\<close>

definition parse_jenkins_link :: "env \<Rightarrow> string \<Rightarrow> string" where
  "parse_jenkins_link e link =
     (let job = drop (length (''https://jenkins-'' @ Tenant e @ ''-edp-cicd.'' @ dnsWildcard e @ ''/job/'')) link
      in take (length job - length ''-cd-pipeline'') job)"

definition parse_stage_resource_name :: "string \<Rightarrow> string \<times> string" where
  "parse_stage_resource_name n =
     (let stageName = rev (takeWhile (\<lambda>c. c \<noteq> CHR ''-'') (rev n))
      in (take (length n - length stageName - 1) n, stageName))"

definition parse_project_link :: "env \<Rightarrow> string \<Rightarrow> string \<times> string" where
  "parse_project_link e link =
     parse_stage_resource_name (drop (length (OpenshiftProjectLink (dnsWildcard e) @ Tenant e @ ''-'')) link)"

subsection \<open>Concrete data\<close>

text \<open>
  The scenario of the specification: the command \<open>release-pipe\<close> for the application
  \<open>svc-a\<close> on \<open>master\<close> with the stages \<open>build\<close> and \<open>deploy\<close>, an empty resource store, a
  read model without the pipeline, and no failing call.
\<close>

definition svc_a_master :: ApplicationWithBranch where
  "svc_a_master = \<lparr>ApplicationName = ''svc-a'', BranchName = ''master''\<rparr>"

definition build_stage :: StageCreate where
  "build_stage = \<lparr>sc_Name = ''build'', sc_Description = ''build it'', sc_StepName = ''deploy'',
     sc_QualityGateType = ''manual'', sc_TriggerType = ''manual'', sc_Order = 0\<rparr>"

definition deploy_stage :: StageCreate where
  "deploy_stage = \<lparr>sc_Name = ''deploy'', sc_Description = ''ship it'', sc_StepName = ''deploy'',
     sc_QualityGateType = ''manual'', sc_TriggerType = ''manual'', sc_Order = 1\<rparr>"

definition release_pipe :: CDPipelineCreateCommand where
  "release_pipe = \<lparr>cmd_Name = ''release-pipe'', cmd_Applications = [svc_a_master],
     cmd_ThirdPartyServices = [], cmd_Stages = [build_stage, deploy_stage]\<rparr>"

definition quiet_env :: env where
  "quiet_env = \<lparr>Namespace = ''edp'', Tenant = ''acme'', dnsWildcard = ''apps.example.com'',
     time_Now = (\<lambda>k. 1000 + k),
     repo_GetCDPipelineByName = (\<lambda>n. Inr None),
     checkAppAndBranch = (\<lambda>apps. list_all (\<lambda>a. a = svc_a_master) apps),
     rest_failure = (\<lambda>v r n. None),
     sort_Slice = shortSort\<rparr>"

definition empty_cluster :: cluster where
  "empty_cluster = \<lparr>cdpipelines = [], stages = []\<rparr>"

text \<open>A store that already holds a stage resource named \<open>release-pipe-build\<close>.\<close>

definition cluster_with_build :: cluster where
  "cluster_with_build =
     \<lparr>cdpipelines = [], stages = [createCrd quiet_env 7 ''release-pipe'' build_stage]\<rparr>"

text \<open>A store that already holds the pipeline resource \<open>release-pipe\<close>.\<close>

definition cluster_with_pipe :: cluster where
  "cluster_with_pipe = \<lparr>cdpipelines = [pipelineCrd quiet_env release_pipe], stages = []\<rparr>"

text \<open>Rows of the read model.\<close>

definition stage_row :: "string \<Rightarrow> int \<Rightarrow> query_Stage" where
  "stage_row n k = \<lparr>qs_Id = k, qs_Name = n, qs_Description = '''', qs_TriggerType = ''manual'',
     qs_QualityGate = ''manual'', qs_JenkinsStepName = ''deploy'', qs_Order = k,
     qs_OpenshiftProjectLink = ''''\<rparr>"

definition branch_row :: query_CodebaseBranch where
  "branch_row = \<lparr>br_Name = ''master'', br_AppName = '''', br_VCSLink = '''', br_CICDLink = '''',
     br_Codebase = \<lparr>cb_Name = ''svc-a''\<rparr>\<rparr>"

definition pipe_row :: query_CDPipeline where
  "pipe_row = \<lparr>pl_Name = ''release-pipe'', pl_JenkinsLink = '''',
     pl_Stage = [stage_row ''prod'' 2, stage_row ''dev'' 0, stage_row ''qa'' 1],
     pl_CodebaseBranch = [branch_row]\<rparr>"

text \<open>An environment whose read model holds \<open>release-pipe\<close>.\<close>

definition env_with_row :: env where
  "env_with_row = quiet_env\<lparr>repo_GetCDPipelineByName :=
     (\<lambda>n. if n = ''release-pipe'' then Inr (Some pipe_row) else Inr None)\<rparr>"

text \<open>An environment in which the lookup of a pipeline resource fails.\<close>

definition env_get_fails :: env where
  "env_get_fails = quiet_env\<lparr>rest_failure :=
     (\<lambda>v r n. if v = GET \<and> r = ''cdpipelines'' then Some ''connection refused'' else None)\<rparr>"

text \<open>Seven stages, the first six of order 1 and the last of order 0.\<close>

definition row7 :: "string \<Rightarrow> int \<Rightarrow> query_Stage" where
  "row7 n k = (stage_row n k)\<lparr>qs_Id := 0\<rparr>"

definition seven_stages :: "query_Stage list" where
  "seven_stages = [row7 ''s0'' 1, row7 ''s1'' 1, row7 ''s2'' 1, row7 ''s3'' 1, row7 ''s4'' 1,
     row7 ''s5'' 1, row7 ''s6'' 0]"

text \<open>Two stages whose names share a pipeline's hyphen.\<close>

definition stage_cc :: StageCreate where
  "stage_cc = build_stage\<lparr>sc_Name := ''cc''\<rparr>"

definition stage_bb_cc :: StageCreate where
  "stage_bb_cc = build_stage\<lparr>sc_Name := ''bb-cc''\<rparr>"

text \<open>The scenario's command with a branch that does not exist.\<close>

definition unresolved_cmd :: CDPipelineCreateCommand where
  "unresolved_cmd = release_pipe\<lparr>cmd_Applications := [svc_a_master\<lparr>BranchName := ''gone''\<rparr>]\<rparr>"

text \<open>A store that already holds a stage resource named \<open>release-pipe-deploy\<close>.\<close>

definition cluster_with_deploy :: cluster where
  "cluster_with_deploy =
     \<lparr>cdpipelines = [], stages = [createCrd quiet_env 7 ''release-pipe'' deploy_stage]\<rparr>"

text \<open>An environment in which the lookup of the stage resource \<open>release-pipe-build\<close> fails.\<close>

definition env_stage_get_fails :: env where
  "env_stage_get_fails = quiet_env\<lparr>rest_failure :=
     (\<lambda>v r n. if v = GET \<and> r = ''stages'' \<and> n = ''release-pipe-build''
                then Some ''connection refused'' else None)\<rparr>"

section \<open>Auxiliary facts\<close>

subsection \<open>The creation path\<close>

lemma get_stage_cdpipelines [simp]:
  "get_stage e (c\<lparr>cdpipelines := ps\<rparr>) ns n = get_stage e c ns n"
  by (simp add: get_stage_def split: option.splits)

lemma checkStagesInK8s_cdpipelines [simp]:
  "checkStagesInK8s e (c\<lparr>cdpipelines := ps\<rparr>) p sts = checkStagesInK8s e c p sts"
  by (induction sts) (simp_all split: sum.splits)

lemma checkStagesInK8s_None:
  "checkStagesInK8s e c p sts = None \<longleftrightarrow>
   (\<forall>st \<in> set sts. get_stage e c (Namespace e) (p @ ''-'' @ sc_Name st) = Inl NotFound)"
  by (induction sts) (auto split: sum.splits)

lemma checkStagesInK8s_error:
  "checkStagesInK8s e c p sts = Some err \<Longrightarrow>
   (\<exists>st \<in> set sts. \<exists>r. get_stage e c (Namespace e) (p @ ''-'' @ sc_Name st) = Inr r
        \<and> err = ErrStageExists (sc_Name st))
   \<or> (\<exists>st \<in> set sts. \<exists>re. get_stage e c (Namespace e) (p @ ''-'' @ sc_Name st) = Inl re
        \<and> re \<noteq> NotFound \<and> err = RestError re)"
  by (induction sts) (auto split: sum.splits if_splits)

lemma post_stage_cdpipelines:
  "post_stage e c crd = (r, c') \<Longrightarrow> cdpipelines c' = cdpipelines c"
  by (auto simp: post_stage_def split: option.splits)

lemma saveStagesIntoK8s_cdpipelines:
  "saveStagesIntoK8s e k c p sts = (r, c') \<Longrightarrow> cdpipelines c' = cdpipelines c"
proof (induction sts arbitrary: k c r c')
  case Nil
  then show ?case by simp
next
  case (Cons st sts)
  obtain r1 c1 where p1: "post_stage e c (createCrd e (time_Now e k) p st) = (r1, c1)"
    by (cases "post_stage e c (createCrd e (time_Now e k) p st)")
  have c1: "cdpipelines c1 = cdpipelines c" using p1 by (rule post_stage_cdpipelines)
  show ?case
  proof (cases r1)
    case (Inl err)
    then show ?thesis using Cons.prems p1 c1 by simp
  next
    case (Inr cr)
    obtain r2 c2 where p2: "saveStagesIntoK8s e (Suc k) c1 p sts = (r2, c2)"
      by (cases "saveStagesIntoK8s e (Suc k) c1 p sts")
    have "cdpipelines c2 = cdpipelines c1" using p2 by (rule Cons.IH)
    moreover have "c' = c2" using Cons.prems p1 p2 Inr by (cases r2) simp_all
    ultimately show ?thesis using c1 by simp
  qed
qed

lemma saveStagesIntoK8s_error:
  "saveStagesIntoK8s e k c p sts = (Inl err, c') \<Longrightarrow> \<exists>re. err = RestError re"
proof (induction sts arbitrary: k c)
  case Nil
  then show ?case by simp
next
  case (Cons st sts)
  obtain r1 c1 where p1: "post_stage e c (createCrd e (time_Now e k) p st) = (r1, c1)"
    by (cases "post_stage e c (createCrd e (time_Now e k) p st)")
  show ?case
  proof (cases r1)
    case (Inl re)
    then show ?thesis using Cons.prems p1 by auto
  next
    case (Inr cr)
    obtain r2 c2 where p2: "saveStagesIntoK8s e (Suc k) c1 p sts = (r2, c2)"
      by (cases "saveStagesIntoK8s e (Suc k) c1 p sts")
    show ?thesis
    proof (cases r2)
      case (Inl e2)
      then have "saveStagesIntoK8s e (Suc k) c1 p sts = (Inl err, c')"
        using Cons.prems p1 p2 Inr by simp
      then show ?thesis by (rule Cons.IH)
    next
      case (Inr x)
      then show ?thesis using Cons.prems p1 p2 \<open>r1 = Inr cr\<close> by simp
    qed
  qed
qed

lemma CreateStages_cdpipelines:
  "CreateStages e k c cmd = (r, c') \<Longrightarrow> cdpipelines c' = cdpipelines c"
  by (auto simp: CreateStages_def split: option.splits dest: saveStagesIntoK8s_cdpipelines)

lemma CreateStages_stage_exists:
  "CreateStages e k c cmd = (Inl (ErrStageExists n), c') \<Longrightarrow> c' = c"
  by (auto simp: CreateStages_def split: option.splits dest: saveStagesIntoK8s_error)


lemma get_cdpipeline_NotFound:
  "get_cdpipeline e c ns n = Inl NotFound \<Longrightarrow>
   find (\<lambda>p. meta_Name (cr_ObjectMeta p) = n \<and> meta_Namespace (cr_ObjectMeta p) = ns) (cdpipelines c) = None"
  by (auto simp: get_cdpipeline_def split: option.splits)

lemma post_cdpipeline_stored:
  "find (\<lambda>p. meta_Name (cr_ObjectMeta p) = cmd_Name cmd \<and> meta_Namespace (cr_ObjectMeta p) = Namespace e)
        (cdpipelines c) = None \<Longrightarrow>
   rest_failure e POST ''cdpipelines'' (cmd_Name cmd) = None \<Longrightarrow>
   post_cdpipeline e c (pipelineCrd e cmd)
     = (Inr (pipelineCrd e cmd), c\<lparr>cdpipelines := cdpipelines c @ [pipelineCrd e cmd]\<rparr>)"
  by (simp add: post_cdpipeline_def pipelineCrd_def)

lemma post_cdpipeline_Inr:
  "post_cdpipeline e c crd = (Inr x, c1) \<Longrightarrow>
   x = crd \<and> c1 = c\<lparr>cdpipelines := cdpipelines c @ [crd]\<rparr>"
  by (auto simp: post_cdpipeline_def split: option.splits)

lemma post_cdpipeline_Inl:
  "post_cdpipeline e c crd = (Inl re, c1) \<Longrightarrow> c1 = c"
  by (auto simp: post_cdpipeline_def split: option.splits)

text \<open>What \<open>CreatePipeline\<close> does once the three checks have passed.\<close>

lemma CreatePipeline_checked:
  assumes "checkAppAndBranch e (cmd_Applications cmd)"
    and "repo_GetCDPipelineByName e (cmd_Name cmd) = Inr None"
    and "get_cdpipeline e c (Namespace e) (cmd_Name cmd) = Inl NotFound"
  shows "CreatePipeline e c cmd =
     (case post_cdpipeline e c (pipelineCrd e cmd) of
        (Inl err, c1) \<Rightarrow> (Inl (RestError err), c1)
      | (Inr cdPipelineCr, c1) \<Rightarrow>
          (case CreateStages e (Suc 0) c1 cmd of
             (Inl err, c2) \<Rightarrow> (Inl err, c2)
           | (Inr stagesCr, c2) \<Rightarrow> (Inr cdPipelineCr, c2)))"
  using assms by (simp add: CreatePipeline_def GetCDPipelineByName_def getCDPipelineCR_def)

lemma CreatePipeline_posted:
  assumes "checkAppAndBranch e (cmd_Applications cmd)"
    and "repo_GetCDPipelineByName e (cmd_Name cmd) = Inr None"
    and "get_cdpipeline e c (Namespace e) (cmd_Name cmd) = Inl NotFound"
    and "rest_failure e POST ''cdpipelines'' (cmd_Name cmd) = None"
  shows "CreatePipeline e c cmd =
     (case CreateStages e (Suc 0) (c\<lparr>cdpipelines := cdpipelines c @ [pipelineCrd e cmd]\<rparr>) cmd of
        (Inl err, c2) \<Rightarrow> (Inl err, c2)
      | (Inr stagesCr, c2) \<Rightarrow> (Inr (pipelineCrd e cmd), c2))"
  using CreatePipeline_checked[OF assms(1-3)]
    post_cdpipeline_stored[OF get_cdpipeline_NotFound[OF assms(3)] assms(4)]
  by simp

lemma get_stage_NotFound:
  "get_stage e c ns n = Inl NotFound \<Longrightarrow>
   \<forall>x \<in> set (stages c). \<not> (meta_Name (st_ObjectMeta x) = n \<and> meta_Namespace (st_ObjectMeta x) = ns)"
  by (auto simp: get_stage_def find_None_iff split: option.splits)

lemma post_stage_stored:
  assumes "rest_failure e POST ''stages'' (p @ ''-'' @ sc_Name st) = None"
    and "\<forall>x \<in> set (stages c). \<not> (meta_Name (st_ObjectMeta x) = p @ ''-'' @ sc_Name st
                                   \<and> meta_Namespace (st_ObjectMeta x) = Namespace e)"
  shows "post_stage e c (createCrd e t p st)
     = (Inr (createCrd e t p st), c\<lparr>stages := stages c @ [createCrd e t p st]\<rparr>)"
proof -
  have "find (\<lambda>x. meta_Name (st_ObjectMeta x) = p @ ''-'' @ sc_Name st
                 \<and> meta_Namespace (st_ObjectMeta x) = Namespace e) (stages c) = None"
    using assms(2) by (simp add: find_None_iff)
  then show ?thesis using assms(1) by (simp add: post_stage_def createCrd_def)
qed

lemma saveStagesIntoK8s_stored:
  "distinct (map sc_Name sts) \<Longrightarrow>
   \<forall>st \<in> set sts. rest_failure e POST ''stages'' (p @ ''-'' @ sc_Name st) = None \<Longrightarrow>
   \<forall>st \<in> set sts. \<forall>x \<in> set (stages c).
      \<not> (meta_Name (st_ObjectMeta x) = p @ ''-'' @ sc_Name st \<and> meta_Namespace (st_ObjectMeta x) = Namespace e) \<Longrightarrow>
   saveStagesIntoK8s e k c p sts =
     (Inr (map (\<lambda>(i, st). createCrd e (time_Now e i) p st) (enumerate k sts)),
      c\<lparr>stages := stages c @ map (\<lambda>(i, st). createCrd e (time_Now e i) p st) (enumerate k sts)\<rparr>)"
proof (induction sts arbitrary: k c)
  case Nil
  then show ?case by simp
next
  case (Cons st sts)
  let ?crd = "createCrd e (time_Now e k) p st"
  let ?c1 = "c\<lparr>stages := stages c @ [?crd]\<rparr>"
  have post: "post_stage e c ?crd = (Inr ?crd, ?c1)"
    using Cons.prems(2,3) by (intro post_stage_stored) simp_all
  have d: "distinct (map sc_Name sts)" using Cons.prems(1) by simp
  have f: "\<forall>s \<in> set sts. rest_failure e POST ''stages'' (p @ ''-'' @ sc_Name s) = None"
    using Cons.prems(2) by simp
  have fresh: "\<forall>s \<in> set sts. \<forall>x \<in> set (stages ?c1).
      \<not> (meta_Name (st_ObjectMeta x) = p @ ''-'' @ sc_Name s \<and> meta_Namespace (st_ObjectMeta x) = Namespace e)"
  proof (intro ballI)
    fix s x assume s: "s \<in> set sts" and x: "x \<in> set (stages ?c1)"
    have "sc_Name st \<notin> set (map sc_Name sts)" using Cons.prems(1) by simp
    moreover have "sc_Name s \<in> set (map sc_Name sts)" using s by simp
    ultimately have ne: "sc_Name s \<noteq> sc_Name st" by metis
    from x have "x \<in> set (stages c) \<or> x = ?crd" by auto
    then show "\<not> (meta_Name (st_ObjectMeta x) = p @ ''-'' @ sc_Name s \<and> meta_Namespace (st_ObjectMeta x) = Namespace e)"
    proof
      assume "x \<in> set (stages c)"
      then show ?thesis using Cons.prems(3) s by simp
    next
      assume "x = ?crd"
      then show ?thesis using ne by (simp add: createCrd_def)
    qed
  qed
  have rest: "saveStagesIntoK8s e (Suc k) ?c1 p sts =
     (Inr (map (\<lambda>(i, st). createCrd e (time_Now e i) p st) (enumerate (Suc k) sts)),
      ?c1\<lparr>stages := stages ?c1 @ map (\<lambda>(i, st). createCrd e (time_Now e i) p st) (enumerate (Suc k) sts)\<rparr>)"
    using d f fresh by (rule Cons.IH)
  show ?case using post rest by simp
qed

lemma checkStagesInK8s_exists:
  assumes "st \<in> set sts"
    and "get_stage e c (Namespace e) (p @ ''-'' @ sc_Name st) = Inr found"
    and "\<forall>s \<in> set sts. \<forall>re. get_stage e c (Namespace e) (p @ ''-'' @ sc_Name s) = Inl re \<longrightarrow> re = NotFound"
  shows "\<exists>s \<in> set sts. checkStagesInK8s e c p sts = Some (ErrStageExists (sc_Name s))"
proof (cases "checkStagesInK8s e c p sts")
  case None
  then have "get_stage e c (Namespace e) (p @ ''-'' @ sc_Name st) = Inl NotFound"
    using assms(1) by (simp add: checkStagesInK8s_None)
  then show ?thesis using assms(2) by simp
next
  case (Some err)
  from checkStagesInK8s_error[OF Some] assms(3) Some show ?thesis by auto
qed

subsection \<open>The concrete data, evaluated\<close>

lemmas scenario_defs =
  quiet_env_def env_with_row_def env_get_fails_def release_pipe_def unresolved_cmd_def
  svc_a_master_def build_stage_def deploy_stage_def empty_cluster_def cluster_with_build_def
  cluster_with_pipe_def cluster_with_deploy_def

lemmas service_defs =
  CreatePipeline_def GetCDPipelineByName_def getCDPipelineCR_def get_cdpipeline_def
  post_cdpipeline_def CreateStages_def get_stage_def post_stage_def createCrd_def
  pipelineCrd_def convertPipelineData_def

lemma scenario_values:
  "cmd_Name release_pipe = ''release-pipe''"
  "cmd_Stages release_pipe = [build_stage, deploy_stage]"
  "cmd_Applications release_pipe = [svc_a_master]"
  "cmd_Name unresolved_cmd = ''release-pipe''"
  "cmd_Stages unresolved_cmd = [build_stage, deploy_stage]"
  "Namespace quiet_env = ''edp''"
  "sc_Name build_stage = ''build''"
  "sc_Name deploy_stage = ''deploy''"
  "ApplicationName svc_a_master = ''svc-a''"
  "BranchName svc_a_master = ''master''"
  "cdpipelines empty_cluster = []"
  "stages empty_cluster = []"
  "cdpipelines cluster_with_build = []"
  "cdpipelines cluster_with_deploy = []"
  "time_Now quiet_env k = 1000 + k"
  "rest_failure quiet_env v r n = None"
  "repo_GetCDPipelineByName quiet_env n = Inr None"
  "checkAppAndBranch quiet_env [svc_a_master]"
  "\<not> checkAppAndBranch quiet_env (cmd_Applications unresolved_cmd)"
  "empty_cluster\<lparr>cdpipelines := ps, stages := ss\<rparr> = \<lparr>cdpipelines = ps, stages = ss\<rparr>"
  by (simp_all add: scenario_defs)

lemma scenario_lookups:
  "get_cdpipeline quiet_env empty_cluster ''edp'' ''release-pipe'' = Inl NotFound"
  "get_cdpipeline quiet_env cluster_with_build ''edp'' ''release-pipe'' = Inl NotFound"
  "get_cdpipeline quiet_env cluster_with_deploy ''edp'' ''release-pipe'' = Inl NotFound"
  "get_stage quiet_env empty_cluster ''edp'' ''release-pipe-build'' = Inl NotFound"
  "get_stage quiet_env empty_cluster ''edp'' ''release-pipe-deploy'' = Inl NotFound"
  "get_stage quiet_env cluster_with_build ''edp'' ''release-pipe-build''
     = Inr (createCrd quiet_env 7 ''release-pipe'' build_stage)"
  "get_stage quiet_env cluster_with_build ''edp'' ''release-pipe-deploy'' = Inl NotFound"
  "get_stage quiet_env cluster_with_deploy ''edp'' ''release-pipe-build'' = Inl NotFound"
  "get_stage quiet_env cluster_with_deploy ''edp'' ''release-pipe-deploy''
     = Inr (createCrd quiet_env 7 ''release-pipe'' deploy_stage)"
  by (simp_all add: scenario_defs get_cdpipeline_def get_stage_def createCrd_def)

lemma scenario_hypotheses:
  "checkAppAndBranch quiet_env (cmd_Applications release_pipe)"
  "repo_GetCDPipelineByName quiet_env (cmd_Name release_pipe) = Inr None"
  "rest_failure quiet_env POST ''cdpipelines'' (cmd_Name release_pipe) = None"
  "get_cdpipeline quiet_env empty_cluster (Namespace quiet_env) (cmd_Name release_pipe) = Inl NotFound"
  "get_cdpipeline quiet_env cluster_with_build (Namespace quiet_env) (cmd_Name release_pipe) = Inl NotFound"
  "get_cdpipeline quiet_env cluster_with_deploy (Namespace quiet_env) (cmd_Name release_pipe) = Inl NotFound"
  by (simp_all add: scenario_values scenario_lookups)

subsection \<open>Matching by derivatives\<close>

lemma MatchString_Zero [simp]: "\<not> MatchString Zero s"
  by (induction s) simp_all

lemma MatchString_One [simp]: "MatchString One s \<longleftrightarrow> s = []"
  by (cases s) simp_all

lemma MatchString_Plus [simp]:
  "MatchString (Plus r1 r2) s \<longleftrightarrow> MatchString r1 s \<or> MatchString r2 s"
  by (induction s arbitrary: r1 r2) simp_all

lemma MatchString_Class [simp]:
  "MatchString (Class rs) s \<longleftrightarrow> (\<exists>c. s = [c] \<and> in_class rs c)"
  by (cases s) auto

lemma MatchString_Times:
  "MatchString (Times r1 r2) s \<longleftrightarrow>
   (\<exists>u v. s = u @ v \<and> MatchString r1 u \<and> MatchString r2 v)"
proof (induction s arbitrary: r1)
  case Nil
  then show ?case by simp
next
  case (Cons c cs)
  have split: "\<And>P. (\<exists>u v. c # cs = u @ v \<and> P u v) \<longleftrightarrow>
                 P [] (c # cs) \<or> (\<exists>u' v. cs = u' @ v \<and> P (c # u') v)"
    by (auto simp: Cons_eq_append_conv)
  show ?case
    by (simp add: Cons.IH split[of "\<lambda>u v. MatchString r1 u \<and> MatchString r2 v"]) auto
qed

lemma MatchString_Star_Class:
  "MatchString (Star (Class rs)) s \<longleftrightarrow> list_all (in_class rs) s"
proof (induction s)
  case Nil
  then show ?case by simp
next
  case (Cons c cs)
  then show ?case by (simp add: MatchString_Times)
qed

lemma in_class_alnum:
  "in_class [(CHR ''a'', CHR ''z''), (CHR ''0'', CHR ''9'')] c \<longleftrightarrow> lower_alnum c"
  by (simp add: in_class_def lower_alnum_def)

lemma of_char_hyphen: "(of_char c :: nat) = 45 \<longleftrightarrow> c = CHR ''-''"
proof -
  have "(of_char c :: nat) = of_char (CHR ''-'') \<longleftrightarrow> c = CHR ''-''"
    by (rule of_char_eq_iff)
  then show ?thesis by simp
qed

lemma in_class_hyphen_alnum:
  "in_class [(CHR ''-'', CHR ''-''), (CHR ''a'', CHR ''z''), (CHR ''0'', CHR ''9'')] c
   \<longleftrightarrow> lower_alnum c \<or> c = CHR ''-''"
proof -
  have "(45 \<le> (of_char c :: nat) \<and> (of_char c :: nat) \<le> 45) \<longleftrightarrow> c = CHR ''-''"
    using of_char_hyphen[of c] by auto
  then show ?thesis by (auto simp: in_class_def lower_alnum_def)
qed

lemma hyphen_not_alnum: "\<not> lower_alnum (CHR ''-'')"
  by (simp add: lower_alnum_def)

lemma Name_pattern_shape:
  "MatchString
     (Times (Class [(CHR ''a'', CHR ''z''), (CHR ''0'', CHR ''9'')])
       (Times (Star (Class [(CHR ''-'', CHR ''-''), (CHR ''a'', CHR ''z''), (CHR ''0'', CHR ''9'')]))
              (Class [(CHR ''a'', CHR ''z''), (CHR ''0'', CHR ''9'')]))) s
   \<longleftrightarrow> (\<exists>a w b. s = a # w @ [b] \<and> lower_alnum a
          \<and> list_all (\<lambda>c. lower_alnum c \<or> c = CHR ''-'') w \<and> lower_alnum b)"
proof -
  have cls: "in_class [(CHR ''-'', CHR ''-''), (CHR ''a'', CHR ''z''), (CHR ''0'', CHR ''9'')]
               = (\<lambda>c. lower_alnum c \<or> c = CHR ''-'')"
    by (rule ext) (rule in_class_hyphen_alnum)
  let ?P = "\<lambda>c. lower_alnum c \<or> c = CHR ''-''"
  have unfolded: "MatchString
     (Times (Class [(CHR ''a'', CHR ''z''), (CHR ''0'', CHR ''9'')])
       (Times (Star (Class [(CHR ''-'', CHR ''-''), (CHR ''a'', CHR ''z''), (CHR ''0'', CHR ''9'')]))
              (Class [(CHR ''a'', CHR ''z''), (CHR ''0'', CHR ''9'')]))) s
    \<longleftrightarrow> (\<exists>u v. s = u @ v \<and> (\<exists>a. u = [a] \<and> lower_alnum a) \<and>
          (\<exists>w x. v = w @ x \<and> list_all ?P w \<and> (\<exists>b. x = [b] \<and> lower_alnum b)))"
    by (simp add: MatchString_Times MatchString_Star_Class in_class_alnum cls
          del: MatchString.simps)
  have "(\<exists>u v. s = u @ v \<and> (\<exists>a. u = [a] \<and> lower_alnum a) \<and>
          (\<exists>w x. v = w @ x \<and> list_all ?P w \<and> (\<exists>b. x = [b] \<and> lower_alnum b)))
     \<longleftrightarrow> (\<exists>a w b. s = a # w @ [b] \<and> lower_alnum a \<and> list_all ?P w \<and> lower_alnum b)"
  proof
    assume "\<exists>u v. s = u @ v \<and> (\<exists>a. u = [a] \<and> lower_alnum a) \<and>
          (\<exists>w x. v = w @ x \<and> list_all ?P w \<and> (\<exists>b. x = [b] \<and> lower_alnum b))"
    then obtain u v a w x b where "s = u @ v" "u = [a]" "lower_alnum a" "v = w @ x"
      "list_all ?P w" "x = [b]" "lower_alnum b"
      by blast
    then have "s = a # w @ [b] \<and> lower_alnum a \<and> list_all ?P w \<and> lower_alnum b" by simp
    then show "\<exists>a w b. s = a # w @ [b] \<and> lower_alnum a \<and> list_all ?P w \<and> lower_alnum b"
      by blast
  next
    assume "\<exists>a w b. s = a # w @ [b] \<and> lower_alnum a \<and> list_all ?P w \<and> lower_alnum b"
    then obtain a w b where h: "s = a # w @ [b]" "lower_alnum a" "list_all ?P w" "lower_alnum b"
      by blast
    have "s = [a] @ (w @ [b])" using h(1) by simp
    moreover have "\<exists>c. [a] = [c] \<and> lower_alnum c" using h(2) by simp
    moreover have "\<exists>w' x. w @ [b] = w' @ x \<and> list_all ?P w' \<and> (\<exists>c. x = [c] \<and> lower_alnum c)"
      using h(3,4) by blast
    ultimately show "\<exists>u v. s = u @ v \<and> (\<exists>a. u = [a] \<and> lower_alnum a) \<and>
          (\<exists>w x. v = w @ x \<and> list_all ?P w \<and> (\<exists>b. x = [b] \<and> lower_alnum b))"
      by blast
  qed
  with unfolded show ?thesis by simp
qed

lemma shape_dns_label:
  "(\<exists>a w b. s = a # w @ [b] \<and> lower_alnum a
          \<and> list_all (\<lambda>c. lower_alnum c \<or> c = CHR ''-'') w \<and> lower_alnum b)
   \<longleftrightarrow> dns_label_like s \<and> 2 \<le> length s"
proof
  assume "\<exists>a w b. s = a # w @ [b] \<and> lower_alnum a
          \<and> list_all (\<lambda>c. lower_alnum c \<or> c = CHR ''-'') w \<and> lower_alnum b"
  then obtain a w b where s: "s = a # w @ [b]" and a: "lower_alnum a"
    and w: "list_all (\<lambda>c. lower_alnum c \<or> c = CHR ''-'') w" and b: "lower_alnum b"
    by blast
  have "a \<noteq> CHR ''-''" "b \<noteq> CHR ''-''" using a b hyphen_not_alnum by auto
  then show "dns_label_like s \<and> 2 \<le> length s"
    using s a w b by (simp add: dns_label_like_def)
next
  assume h: "dns_label_like s \<and> 2 \<le> length s"
  then obtain a t where s1: "s = a # t" and t: "t \<noteq> []"
    by (cases s) (auto simp: Suc_le_eq)
  obtain w b where t2: "t = w @ [b]" using t by (metis rev_exhaust)
  have all: "list_all (\<lambda>c. lower_alnum c \<or> c = CHR ''-'') s"
    and hd: "hd s \<noteq> CHR ''-''" and last: "last s \<noteq> CHR ''-''"
    using h by (simp_all add: dns_label_like_def)
  have "lower_alnum a" using all hd s1 by auto
  moreover have "lower_alnum b" using all last s1 t2 by auto
  moreover have "list_all (\<lambda>c. lower_alnum c \<or> c = CHR ''-'') w" using all s1 t2 by simp
  ultimately show "\<exists>a w b. s = a # w @ [b] \<and> lower_alnum a
          \<and> list_all (\<lambda>c. lower_alnum c \<or> c = CHR ''-'') w \<and> lower_alnum b"
    using s1 t2 by blast
qed

lemma dns_label_release_pipe: "dns_label_like ''release-pipe''"
  by (simp add: dns_label_like_def lower_alnum_def)

lemma dns_label_a: "dns_label_like ''a''"
  by (simp add: dns_label_like_def lower_alnum_def)

subsection \<open>The library sort and the read path\<close>

lemma mset_swap_list: "i < length xs \<Longrightarrow> j < length xs \<Longrightarrow> mset (swap xs i j) = mset xs"
  by (simp add: swap_def mset_swap)

lemma shellPass_steps:
  "\<forall>i \<in> set js. i < length xs \<Longrightarrow>
   mset (foldl (\<lambda>ys i. if lt (ys ! i) (ys ! (i - 6)) then swap ys i (i - 6) else ys) xs js) = mset xs
   \<and> length (foldl (\<lambda>ys i. if lt (ys ! i) (ys ! (i - 6)) then swap ys i (i - 6) else ys) xs js) = length xs"
proof (induction js arbitrary: xs)
  case Nil
  then show ?case by simp
next
  case (Cons i js)
  let ?ys = "if lt (xs ! i) (xs ! (i - 6)) then swap xs i (i - 6) else xs"
  have i: "i < length xs" using Cons.prems by simp
  have m: "mset ?ys = mset xs" using i by (simp add: mset_swap_list)
  have l: "length ?ys = length xs" by (simp add: swap_def)
  have "\<forall>j \<in> set js. j < length ?ys" using Cons.prems l by simp
  from Cons.IH[OF this] show ?case using m l by simp
qed

lemma mset_shellPass: "mset (shellPass lt xs) = mset xs"
  using shellPass_steps[of "[6..<length xs]" xs lt] by (simp add: shellPass_def)

lemma mset_sink: "mset (sink lt x rs) = add_mset x (mset rs)"
  by (induction rs) auto

lemma set_sink: "set (sink lt x rs) = insert x (set rs)"
  by (induction rs) auto

lemma sorted_sink:
  "strict_weak_order lt \<Longrightarrow> sorted_wrt (\<lambda>a b. \<not> lt a b) rs \<Longrightarrow>
   sorted_wrt (\<lambda>a b. \<not> lt a b) (sink lt x rs)"
proof (induction rs)
  case Nil
  then show ?case by simp
next
  case (Cons y rs)
  have tl: "sorted_wrt (\<lambda>a b. \<not> lt a b) rs" and yz: "\<forall>z \<in> set rs. \<not> lt y z"
    using Cons.prems(2) by simp_all
  show ?case
  proof (cases "lt x y")
    case True
    have asym: "\<And>a b. lt a b \<Longrightarrow> \<not> lt b a"
      using Cons.prems(1) unfolding strict_weak_order_def by blast
    have yx: "\<not> lt y x" using True by (rule asym)
    have "sorted_wrt (\<lambda>a b. \<not> lt a b) (sink lt x rs)"
      using Cons.IH[OF Cons.prems(1) tl] .
    then show ?thesis using True yx yz by (simp add: set_sink)
  next
    case False
    have nt: "\<And>a b c. \<not> lt a b \<Longrightarrow> \<not> lt b c \<Longrightarrow> \<not> lt a c"
      using Cons.prems(1) unfolding strict_weak_order_def by blast
    have "\<forall>z \<in> set rs. \<not> lt x z"
    proof
      fix z assume "z \<in> set rs"
      then have "\<not> lt y z" using yz by simp
      with False show "\<not> lt x z" by (rule nt)
    qed
    then show ?thesis using False Cons.prems(2) by simp
  qed
qed

lemma sink_all:
  "strict_weak_order lt \<Longrightarrow> sorted_wrt (\<lambda>a b. \<not> lt a b) rs \<Longrightarrow>
   sorted_wrt (\<lambda>a b. \<not> lt a b) (foldl (\<lambda>rs x. sink lt x rs) rs xs)
   \<and> mset (foldl (\<lambda>rs x. sink lt x rs) rs xs) = mset xs + mset rs"
proof (induction xs arbitrary: rs)
  case Nil
  then show ?case by simp
next
  case (Cons x xs)
  have "sorted_wrt (\<lambda>a b. \<not> lt a b) (sink lt x rs)"
    using Cons.prems by (rule sorted_sink)
  from Cons.IH[OF Cons.prems(1) this] show ?case by (simp add: mset_sink)
qed

lemma insertionSort_sorts:
  assumes "strict_weak_order lt"
  shows "sorted_wrt (\<lambda>a b. \<not> lt b a) (insertionSort lt xs)"
    and "mset (insertionSort lt xs) = mset xs"
  using sink_all[OF assms, of "[]" xs] by (simp_all add: insertionSort_def sorted_wrt_rev)

lemma shortSort_contract: "sort_Slice_contract shortSort"
  by (simp add: sort_Slice_contract_def shortSort_def insertionSort_sorts mset_shellPass)

lemma by_Order_strict_weak: "strict_weak_order (\<lambda>si sj. qs_Order si < qs_Order sj)"
  by (simp add: strict_weak_order_def)

lemma sortStagesByOrder_sorts:
  assumes "sort_Slice_contract (sort_Slice e)"
  shows "mset (sortStagesByOrder e stgs) = mset stgs"
    and "sorted (map qs_Order (sortStagesByOrder e stgs))"
proof -
  have c: "mset (sort_Slice e (\<lambda>si sj. qs_Order si < qs_Order sj) stgs) = mset stgs
        \<and> sorted_wrt (\<lambda>a b. \<not> qs_Order b < qs_Order a)
             (sort_Slice e (\<lambda>si sj. qs_Order si < qs_Order sj) stgs)"
    using assms by_Order_strict_weak unfolding sort_Slice_contract_def by blast
  show "mset (sortStagesByOrder e stgs) = mset stgs"
    using c by (simp add: sortStagesByOrder_def)
  show "sorted (map qs_Order (sortStagesByOrder e stgs))"
    using c by (simp add: sortStagesByOrder_def sorted_map not_less)
qed

lemma seven_sorted:
  "sortStagesByOrder quiet_env seven_stages =
     [row7 ''s6'' 0, row7 ''s1'' 1, row7 ''s2'' 1, row7 ''s3'' 1, row7 ''s4'' 1, row7 ''s5'' 1,
      row7 ''s0'' 1]"
  by (simp add: sortStagesByOrder_def quiet_env_def seven_stages_def shortSort_def shellPass_def
        insertionSort_def swap_def upt_rec row7_def stage_row_def)

lemma sorted_201:
  assumes "sorted (ks :: int list)" and "mset ks = mset [2, 0, 1]"
  shows "ks = [0, 1, 2]"
proof -
  have "sort [2, 0, 1 :: int] = ks" using assms by (intro properties_for_sort) simp_all
  then show ?thesis by simp
qed

lemma createOpenshiftProjectLinks_keeps:
  "map qs_Order (createOpenshiftProjectLinks e stgs p) = map qs_Order stgs"
  "map qs_Name (createOpenshiftProjectLinks e stgs p) = map qs_Name stgs"
  by (simp_all add: createOpenshiftProjectLinks_def)

lemma GetCDPipelineByName_found:
  assumes "repo_GetCDPipelineByName e name = Inr (Some row)"
  shows "GetCDPipelineByName e name = Inr (Some
     (row\<lparr>pl_JenkinsLink := ''https://jenkins-'' @ Tenant e @ ''-edp-cicd.'' @ dnsWildcard e
              @ ''/job/'' @ pl_Name row @ ''-cd-pipeline'',
          pl_Stage := (if pl_Stage row \<noteq> []
                       then createOpenshiftProjectLinks e (sortStagesByOrder e (pl_Stage row)) (pl_Name row)
                       else pl_Stage row),
          pl_CodebaseBranch := map (\<lambda>branch. branch\<lparr>br_AppName := cb_Name (br_Codebase branch)\<rparr>)
                                   (createLinksForBranchEntities e (pl_CodebaseBranch row))\<rparr>))"
proof (cases "pl_Stage row \<noteq> []")
  case True
  then show ?thesis
    using assms by (simp add: GetCDPipelineByName_def Let_def createJenkinsLink_def)
next
  case False
  then have "GetCDPipelineByName e name = Inr (Some
     (row\<lparr>pl_JenkinsLink := ''https://jenkins-'' @ Tenant e @ ''-edp-cicd.'' @ dnsWildcard e
              @ ''/job/'' @ pl_Name row @ ''-cd-pipeline'',
          pl_CodebaseBranch := map (\<lambda>branch. branch\<lparr>br_AppName := cb_Name (br_Codebase branch)\<rparr>)
                                   (createLinksForBranchEntities e (pl_CodebaseBranch row))\<rparr>))"
    using assms by (simp add: GetCDPipelineByName_def Let_def createJenkinsLink_def)
  moreover have "(if pl_Stage row \<noteq> []
                       then createOpenshiftProjectLinks e (sortStagesByOrder e (pl_Stage row)) (pl_Name row)
                       else pl_Stage row) = pl_Stage row"
    using False by (rule if_not_P)
  ultimately show ?thesis by (simp only: query_CDPipeline.update_convs query_CDPipeline.select_convs
        query_CDPipeline.surjective[symmetric] ) simp
qed

lemma row_values:
  "repo_GetCDPipelineByName env_with_row ''release-pipe'' = Inr (Some pipe_row)"
  "Tenant env_with_row = ''acme''"
  "dnsWildcard env_with_row = ''apps.example.com''"
  "sort_Slice env_with_row = shortSort"
  "pl_Name pipe_row = ''release-pipe''"
  "pl_Stage pipe_row = [stage_row ''prod'' 2, stage_row ''dev'' 0, stage_row ''qa'' 1]"
  "pl_CodebaseBranch pipe_row = [branch_row]"
  "qs_Order (stage_row n k) = k"
  "qs_Name (stage_row n k) = n"
  by (simp_all add: env_with_row_def quiet_env_def pipe_row_def stage_row_def)

lemma pipe_row_sorted:
  "sortStagesByOrder env_with_row (pl_Stage pipe_row)
     = [stage_row ''dev'' 0, stage_row ''qa'' 1, stage_row ''prod'' 2]"
  by (simp add: sortStagesByOrder_def row_values(4,6,8) shortSort_def shellPass_def insertionSort_def)

subsection \<open>Reading names back\<close>

lemma drop_prefix: "drop (length xs) (xs @ ys) = ys"
  by simp

lemma parse_stage_resource_name_roundtrip:
  assumes "CHR ''-'' \<notin> set n"
  shows "parse_stage_resource_name (p @ ''-'' @ n) = (p, n)"
proof -
  have "rev (p @ ''-'' @ n) = rev n @ CHR ''-'' # rev p" by simp
  moreover have "takeWhile (\<lambda>c. c \<noteq> CHR ''-'') (rev n @ CHR ''-'' # rev p) = rev n"
  proof -
    have "\<And>x. x \<in> set (rev n) \<Longrightarrow> x \<noteq> CHR ''-''" using assms by auto
    then have "takeWhile (\<lambda>c. c \<noteq> CHR ''-'') (rev n @ CHR ''-'' # rev p)
                 = rev n @ takeWhile (\<lambda>c. c \<noteq> CHR ''-'') (CHR ''-'' # rev p)"
      by (rule takeWhile_append2)
    then show ?thesis by simp
  qed
  ultimately have t: "takeWhile (\<lambda>c. c \<noteq> CHR ''-'') (rev (p @ ''-'' @ n)) = rev n"
    by (simp only:)
  show ?thesis
    unfolding parse_stage_resource_name_def Let_def t by simp
qed

lemma parse_jenkins_link_roundtrip:
  "parse_jenkins_link e (''https://'' @ ''jenkins'' @ ''-'' @ Tenant e @ ''-edp-cicd.'' @ dnsWildcard e
          @ ''/job/'' @ (n @ ''-'' @ ''cd-pipeline'')) = n"
proof -
  let ?prefix = "''https://jenkins-'' @ Tenant e @ ''-edp-cicd.'' @ dnsWildcard e @ ''/job/''"
  have l: "''https://'' @ ''jenkins'' @ ''-'' @ Tenant e @ ''-edp-cicd.'' @ dnsWildcard e
          @ ''/job/'' @ (n @ ''-'' @ ''cd-pipeline'') = ?prefix @ (n @ ''-cd-pipeline'')"
    by simp
  have d: "drop (length ?prefix) (?prefix @ (n @ ''-cd-pipeline'')) = n @ ''-cd-pipeline''"
    by (rule drop_prefix)
  have t: "take (length (n @ ''-cd-pipeline'') - length ''-cd-pipeline'') (n @ ''-cd-pipeline'') = n"
    by simp
  show ?thesis
    unfolding parse_jenkins_link_def Let_def l d t ..
qed

lemma parse_project_link_roundtrip:
  assumes "CHR ''-'' \<notin> set n"
  shows "parse_project_link e (OpenshiftProjectLink (dnsWildcard e) @ Tenant e @ ''-'' @ p @ ''-'' @ n) = (p, n)"
proof -
  let ?prefix = "OpenshiftProjectLink (dnsWildcard e) @ Tenant e @ ''-''"
  have l: "OpenshiftProjectLink (dnsWildcard e) @ Tenant e @ ''-'' @ p @ ''-'' @ n
             = ?prefix @ (p @ ''-'' @ n)" by simp
  have d: "drop (length ?prefix) (?prefix @ (p @ ''-'' @ n)) = p @ ''-'' @ n"
    by (rule drop_prefix)
  show ?thesis
    unfolding parse_project_link_def l d using assms by (rule parse_stage_resource_name_roundtrip)
qed

section \<open>Properties\<close>

subsection \<open>Creation: the order of the checks\<close>

text \<open>
  C3. A creation command whose application/branch references do not all resolve (the
  codebase service's check answers false) fails with the invalid-reference error, and the
  resource store is left as it was, whatever the two stores hold: the check comes first.
\<close>

theorem C3_invalid_reference_first:
  "\<not> checkAppAndBranch e (cmd_Applications cmd) \<Longrightarrow>
   CreatePipeline e c cmd = (Inl ErrNonValidRelatedBranch, c)"
  by (simp add: CreatePipeline_def)

theorem C3_witness:
  "\<not> checkAppAndBranch quiet_env (cmd_Applications unresolved_cmd)
   \<and> CreatePipeline quiet_env cluster_with_pipe unresolved_cmd
       = (Inl ErrNonValidRelatedBranch, cluster_with_pipe)"
proof -
  have h: "\<not> checkAppAndBranch quiet_env (cmd_Applications unresolved_cmd)"
    by (simp add: scenario_defs)
  from C3_invalid_reference_first[OF h] h show ?thesis by simp
qed

text \<open>
  C2, as the code has it. For a creation command whose references resolve: when the
  read model holds a pipeline of the command's name, or when the read model answers that
  there is none and the resource store holds a pipeline resource of that name,
  \<open>CreatePipeline\<close> fails with the already-exists error and the resource store is left as
  it was.
\<close>

theorem C2_already_exists:
  "checkAppAndBranch e (cmd_Applications cmd) \<Longrightarrow>
   (repo_GetCDPipelineByName e (cmd_Name cmd) = Inr (Some row) \<longrightarrow>
      CreatePipeline e c cmd = (Inl ErrCDPipelineIsExists, c)) \<and>
   (repo_GetCDPipelineByName e (cmd_Name cmd) = Inr None \<and>
    get_cdpipeline e c (Namespace e) (cmd_Name cmd) = Inr cr \<longrightarrow>
      CreatePipeline e c cmd = (Inl ErrCDPipelineIsExists, c))"
  by (simp add: CreatePipeline_def GetCDPipelineByName_def getCDPipelineCR_def Let_def)

theorem C2_witness:
  "checkAppAndBranch env_with_row (cmd_Applications release_pipe)
   \<and> repo_GetCDPipelineByName env_with_row (cmd_Name release_pipe) = Inr (Some pipe_row)
   \<and> CreatePipeline env_with_row empty_cluster release_pipe = (Inl ErrCDPipelineIsExists, empty_cluster)
   \<and> checkAppAndBranch quiet_env (cmd_Applications release_pipe)
   \<and> repo_GetCDPipelineByName quiet_env (cmd_Name release_pipe) = Inr None
   \<and> get_cdpipeline quiet_env cluster_with_pipe (Namespace quiet_env) (cmd_Name release_pipe)
        = Inr (pipelineCrd quiet_env release_pipe)
   \<and> CreatePipeline quiet_env cluster_with_pipe release_pipe = (Inl ErrCDPipelineIsExists, cluster_with_pipe)"
proof -
  have a: "checkAppAndBranch env_with_row (cmd_Applications release_pipe)"
    by (simp add: scenario_defs)
  have b: "repo_GetCDPipelineByName env_with_row (cmd_Name release_pipe) = Inr (Some pipe_row)"
    by (simp add: scenario_defs)
  have c: "checkAppAndBranch quiet_env (cmd_Applications release_pipe)"
    by (simp add: scenario_defs)
  have d: "repo_GetCDPipelineByName quiet_env (cmd_Name release_pipe) = Inr None"
    by (simp add: scenario_defs)
  have g: "get_cdpipeline quiet_env cluster_with_pipe (Namespace quiet_env) (cmd_Name release_pipe)
        = Inr (pipelineCrd quiet_env release_pipe)"
    by (simp add: scenario_defs get_cdpipeline_def pipelineCrd_def)
  show ?thesis
    using C2_already_exists[OF a, of pipe_row empty_cluster]
      C2_already_exists[OF c, of _ cluster_with_pipe "pipelineCrd quiet_env release_pipe"]
      a b c d g
    by simp
qed

text \<open>
  The claim as it was stated, for every creation command, fails: with a reference that
  does not resolve, a command whose name the read model holds is refused for the
  reference, not for the name.
\<close>

theorem C2_counterexample:
  "repo_GetCDPipelineByName env_with_row (cmd_Name unresolved_cmd) = Inr (Some pipe_row)
   \<and> CreatePipeline env_with_row empty_cluster unresolved_cmd = (Inl ErrNonValidRelatedBranch, empty_cluster)
   \<and> fst (CreatePipeline env_with_row empty_cluster unresolved_cmd) \<noteq> Inl ErrCDPipelineIsExists"
  by (simp add: scenario_defs CreatePipeline_def)

text \<open>
  C7. Not found is not a failure. A name the read model does not hold makes
  \<open>GetCDPipelineByName\<close> return nil and no error. In the lookup of the pipeline resource,
  the answer \<open>NotFound\<close> is turned into nil and no error, and any other error is handed
  on. In \<open>CreatePipeline\<close>, once the reference check and the read model have let the
  command pass, \<open>NotFound\<close> lets the creation go on (the call does not end with the
  already-exists error, and the pipeline resource is stored unless its \<open>Post\<close> fails),
  and any other error of the lookup is the error of the call, with nothing written.
\<close>

theorem C7_not_found_is_not_failure:
  "(repo_GetCDPipelineByName e name = Inr None \<longrightarrow> GetCDPipelineByName e name = Inr None)
   \<and> (get_cdpipeline e c ns name = Inl NotFound \<longrightarrow> getCDPipelineCR e c name ns = Inr None)
   \<and> (get_cdpipeline e c ns name = Inl re \<and> re \<noteq> NotFound \<longrightarrow>
        getCDPipelineCR e c name ns = Inl (RestError re))
   \<and> (checkAppAndBranch e (cmd_Applications cmd)
        \<and> repo_GetCDPipelineByName e (cmd_Name cmd) = Inr None
        \<and> get_cdpipeline e c (Namespace e) (cmd_Name cmd) = Inl NotFound \<longrightarrow>
        fst (CreatePipeline e c cmd) \<noteq> Inl ErrCDPipelineIsExists
        \<and> (rest_failure e POST ''cdpipelines'' (cmd_Name cmd) = None \<longrightarrow>
             cdpipelines (snd (CreatePipeline e c cmd)) = cdpipelines c @ [pipelineCrd e cmd]))
   \<and> (checkAppAndBranch e (cmd_Applications cmd)
        \<and> repo_GetCDPipelineByName e (cmd_Name cmd) = Inr None
        \<and> get_cdpipeline e c (Namespace e) (cmd_Name cmd) = Inl re \<and> re \<noteq> NotFound \<longrightarrow>
        CreatePipeline e c cmd = (Inl (RestError re), c))"
proof (intro conjI impI)
  assume "repo_GetCDPipelineByName e name = Inr None"
  then show "GetCDPipelineByName e name = Inr None" by (simp add: GetCDPipelineByName_def)
next
  assume "get_cdpipeline e c ns name = Inl NotFound"
  then show "getCDPipelineCR e c name ns = Inr None" by (simp add: getCDPipelineCR_def)
next
  assume "get_cdpipeline e c ns name = Inl re \<and> re \<noteq> NotFound"
  then show "getCDPipelineCR e c name ns = Inl (RestError re)" by (simp add: getCDPipelineCR_def)
next
  assume h: "checkAppAndBranch e (cmd_Applications cmd)
        \<and> repo_GetCDPipelineByName e (cmd_Name cmd) = Inr None
        \<and> get_cdpipeline e c (Namespace e) (cmd_Name cmd) = Inl NotFound"
  then have eq: "CreatePipeline e c cmd =
     (case post_cdpipeline e c (pipelineCrd e cmd) of
        (Inl err, c1) \<Rightarrow> (Inl (RestError err), c1)
      | (Inr cdPipelineCr, c1) \<Rightarrow>
          (case CreateStages e (Suc 0) c1 cmd of
             (Inl err, c2) \<Rightarrow> (Inl err, c2)
           | (Inr stagesCr, c2) \<Rightarrow> (Inr cdPipelineCr, c2)))"
    by (simp add: CreatePipeline_checked)
  obtain r1 c1 where p1: "post_cdpipeline e c (pipelineCrd e cmd) = (r1, c1)"
    by (cases "post_cdpipeline e c (pipelineCrd e cmd)")
  obtain r2 c2 where p2: "CreateStages e (Suc 0) c1 cmd = (r2, c2)"
    by (cases "CreateStages e (Suc 0) c1 cmd")
  have stage_err: "r2 \<noteq> Inl ErrCDPipelineIsExists"
  proof
    assume "r2 = Inl ErrCDPipelineIsExists"
    then have cs: "CreateStages e (Suc 0) c1 cmd = (Inl ErrCDPipelineIsExists, c2)" using p2 by simp
    show False
    proof (cases "checkStagesInK8s e c1 (cmd_Name cmd) (cmd_Stages cmd)")
      case None
      then have "saveStagesIntoK8s e (Suc 0) c1 (cmd_Name cmd) (cmd_Stages cmd) = (Inl ErrCDPipelineIsExists, c2)"
        using cs by (simp add: CreateStages_def)
      then show False by (auto dest: saveStagesIntoK8s_error)
    next
      case (Some err)
      then have "err = ErrCDPipelineIsExists" using cs by (simp add: CreateStages_def)
      then show False using checkStagesInK8s_error[OF Some] by auto
    qed
  qed
  show "fst (CreatePipeline e c cmd) \<noteq> Inl ErrCDPipelineIsExists"
    using eq p1 p2 stage_err by (cases r1; cases r2) auto
next
  assume h: "checkAppAndBranch e (cmd_Applications cmd)
        \<and> repo_GetCDPipelineByName e (cmd_Name cmd) = Inr None
        \<and> get_cdpipeline e c (Namespace e) (cmd_Name cmd) = Inl NotFound"
    and pf: "rest_failure e POST ''cdpipelines'' (cmd_Name cmd) = None"
  let ?c1 = "c\<lparr>cdpipelines := cdpipelines c @ [pipelineCrd e cmd]\<rparr>"
  have eq: "CreatePipeline e c cmd =
     (case CreateStages e (Suc 0) ?c1 cmd of
        (Inl err, c2) \<Rightarrow> (Inl err, c2)
      | (Inr stagesCr, c2) \<Rightarrow> (Inr (pipelineCrd e cmd), c2))"
    using h pf by (simp add: CreatePipeline_posted)
  obtain r2 c2 where p2: "CreateStages e (Suc 0) ?c1 cmd = (r2, c2)"
    by (cases "CreateStages e (Suc 0) ?c1 cmd")
  have "cdpipelines c2 = cdpipelines ?c1" using p2 by (rule CreateStages_cdpipelines)
  then show "cdpipelines (snd (CreatePipeline e c cmd)) = cdpipelines c @ [pipelineCrd e cmd]"
    using eq p2 by (cases r2) simp_all
next
  assume "checkAppAndBranch e (cmd_Applications cmd)
        \<and> repo_GetCDPipelineByName e (cmd_Name cmd) = Inr None
        \<and> get_cdpipeline e c (Namespace e) (cmd_Name cmd) = Inl re \<and> re \<noteq> NotFound"
  then show "CreatePipeline e c cmd = (Inl (RestError re), c)"
    by (simp add: CreatePipeline_def GetCDPipelineByName_def getCDPipelineCR_def)
qed

theorem C7_witness:
  "repo_GetCDPipelineByName quiet_env ''release-pipe'' = Inr None
   \<and> GetCDPipelineByName quiet_env ''release-pipe'' = Inr None
   \<and> get_cdpipeline quiet_env empty_cluster ''edp'' ''release-pipe'' = Inl NotFound
   \<and> getCDPipelineCR quiet_env empty_cluster ''release-pipe'' ''edp'' = Inr None
   \<and> get_cdpipeline env_get_fails empty_cluster ''edp'' ''release-pipe''
        = Inl (ServerError ''connection refused'')
   \<and> getCDPipelineCR env_get_fails empty_cluster ''release-pipe'' ''edp''
        = Inl (RestError (ServerError ''connection refused''))
   \<and> fst (CreatePipeline quiet_env empty_cluster release_pipe) \<noteq> Inl ErrCDPipelineIsExists
   \<and> cdpipelines (snd (CreatePipeline quiet_env empty_cluster release_pipe))
        = [pipelineCrd quiet_env release_pipe]
   \<and> CreatePipeline env_get_fails empty_cluster release_pipe
        = (Inl (RestError (ServerError ''connection refused'')), empty_cluster)"
proof -
  have a: "repo_GetCDPipelineByName quiet_env ''release-pipe'' = Inr None"
    by (simp add: scenario_defs)
  have b: "get_cdpipeline quiet_env empty_cluster ''edp'' ''release-pipe'' = Inl NotFound"
    by (simp add: scenario_defs get_cdpipeline_def)
  have c: "get_cdpipeline env_get_fails empty_cluster ''edp'' ''release-pipe''
        = Inl (ServerError ''connection refused'')"
    by (simp add: scenario_defs get_cdpipeline_def)
  have d: "checkAppAndBranch quiet_env (cmd_Applications release_pipe)"
    "checkAppAndBranch env_get_fails (cmd_Applications release_pipe)"
    "repo_GetCDPipelineByName env_get_fails ''release-pipe'' = Inr None"
    "rest_failure quiet_env POST ''cdpipelines'' ''release-pipe'' = None"
    "cmd_Name release_pipe = ''release-pipe''" "Namespace quiet_env = ''edp''"
    "Namespace env_get_fails = ''edp''" "cdpipelines empty_cluster = []"
    by (simp_all add: scenario_defs)
  show ?thesis
    using C7_not_found_is_not_failure[of quiet_env "''release-pipe''" empty_cluster "''edp''"
        NotFound release_pipe]
      C7_not_found_is_not_failure[of env_get_fails "''release-pipe''" empty_cluster "''edp''"
        "ServerError ''connection refused''" release_pipe]
      a b c d
    by simp
qed

subsection \<open>Creation: what is written\<close>

text \<open>
  C1, as the code has it. For a creation command whose references resolve, whose name is
  in neither store, whose stage names are pairwise different and give derived names
  \<open><pipelineName>-<stageName>\<close> that the resource store does not hold, and with no call
  to the store failing, \<open>CreatePipeline\<close> succeeds, returns the pipeline resource and adds
  to the store exactly that resource and one stage resource per requested stage, in the
  order of the command. The pipeline resource carries the branch references
  \<open><applicationName>-<branchName>\<close> in the order of \<open>Applications\<close> and the status
  \<open>initialized\<close>; every stage resource carries the stage's description, quality gate,
  Jenkins step, trigger type and order, the name of the pipeline, and the status
  \<open>initialized\<close>.
\<close>

theorem C1_creates_pipeline_and_stages:
  assumes "checkAppAndBranch e (cmd_Applications cmd)"
    and "repo_GetCDPipelineByName e (cmd_Name cmd) = Inr None"
    and "get_cdpipeline e c (Namespace e) (cmd_Name cmd) = Inl NotFound"
    and "\<forall>st \<in> set (cmd_Stages cmd).
           get_stage e c (Namespace e) (cmd_Name cmd @ ''-'' @ sc_Name st) = Inl NotFound"
    and "distinct (map sc_Name (cmd_Stages cmd))"
    and "rest_failure e POST ''cdpipelines'' (cmd_Name cmd) = None"
    and "\<forall>st \<in> set (cmd_Stages cmd).
           rest_failure e POST ''stages'' (cmd_Name cmd @ ''-'' @ sc_Name st) = None"
  shows "CreatePipeline e c cmd =
       (Inr (pipelineCrd e cmd),
        c\<lparr>cdpipelines := cdpipelines c @ [pipelineCrd e cmd],
          stages := stages c @ map (\<lambda>(i, st). createCrd e (time_Now e i) (cmd_Name cmd) st)
                                   (enumerate (Suc 0) (cmd_Stages cmd))\<rparr>)
     \<and> ps_CodebaseBranch (cr_Spec (pipelineCrd e cmd))
         = map (\<lambda>a. ApplicationName a @ ''-'' @ BranchName a) (cmd_Applications cmd)
     \<and> Status (cr_Status (pipelineCrd e cmd)) = ''initialized''
     \<and> (\<forall>t st. st_Spec (createCrd e t (cmd_Name cmd) st)
                 = \<lparr>ss_Name = sc_Name st, ss_Description = sc_Description st,
                    ss_QualityGate = sc_QualityGateType st, ss_JenkinsStep = sc_StepName st,
                    ss_TriggerType = sc_TriggerType st, ss_Order = sc_Order st,
                    ss_CdPipeline = cmd_Name cmd\<rparr>
               \<and> Status (st_Status (createCrd e t (cmd_Name cmd) st)) = ''initialized'')"
proof -
  let ?c1 = "c\<lparr>cdpipelines := cdpipelines c @ [pipelineCrd e cmd]\<rparr>"
  let ?new = "map (\<lambda>(i, st). createCrd e (time_Now e i) (cmd_Name cmd) st)
                  (enumerate (Suc 0) (cmd_Stages cmd))"
  have chk: "checkStagesInK8s e ?c1 (cmd_Name cmd) (cmd_Stages cmd) = None"
    using assms(4) by (simp add: checkStagesInK8s_None)
  have fresh: "\<forall>st \<in> set (cmd_Stages cmd). \<forall>x \<in> set (stages ?c1).
      \<not> (meta_Name (st_ObjectMeta x) = cmd_Name cmd @ ''-'' @ sc_Name st
          \<and> meta_Namespace (st_ObjectMeta x) = Namespace e)"
  proof
    fix st assume "st \<in> set (cmd_Stages cmd)"
    then have "get_stage e c (Namespace e) (cmd_Name cmd @ ''-'' @ sc_Name st) = Inl NotFound"
      using assms(4) by simp
    from get_stage_NotFound[OF this]
    show "\<forall>x \<in> set (stages ?c1).
      \<not> (meta_Name (st_ObjectMeta x) = cmd_Name cmd @ ''-'' @ sc_Name st
          \<and> meta_Namespace (st_ObjectMeta x) = Namespace e)" by simp
  qed
  have "saveStagesIntoK8s e (Suc 0) ?c1 (cmd_Name cmd) (cmd_Stages cmd)
          = (Inr ?new, ?c1\<lparr>stages := stages ?c1 @ ?new\<rparr>)"
    using assms(5) assms(7) fresh by (rule saveStagesIntoK8s_stored)
  then have "CreateStages e (Suc 0) ?c1 cmd = (Inr ?new, ?c1\<lparr>stages := stages ?c1 @ ?new\<rparr>)"
    using chk by (simp add: CreateStages_def)
  then have "CreatePipeline e c cmd = (Inr (pipelineCrd e cmd), ?c1\<lparr>stages := stages ?c1 @ ?new\<rparr>)"
    using CreatePipeline_posted[OF assms(1-3) assms(6)] by simp
  then show ?thesis by (simp add: pipelineCrd_def convertPipelineData_def createCrd_def)
qed

theorem C1_witness:
  "checkAppAndBranch quiet_env (cmd_Applications release_pipe)
   \<and> repo_GetCDPipelineByName quiet_env (cmd_Name release_pipe) = Inr None
   \<and> get_cdpipeline quiet_env empty_cluster ''edp'' ''release-pipe'' = Inl NotFound
   \<and> CreatePipeline quiet_env empty_cluster release_pipe =
       (Inr (pipelineCrd quiet_env release_pipe),
        \<lparr>cdpipelines = [pipelineCrd quiet_env release_pipe],
         stages = [createCrd quiet_env 1001 ''release-pipe'' build_stage,
                   createCrd quiet_env 1002 ''release-pipe'' deploy_stage]\<rparr>)
   \<and> meta_Name (st_ObjectMeta (createCrd quiet_env 1001 ''release-pipe'' build_stage)) = ''release-pipe-build''
   \<and> meta_Name (st_ObjectMeta (createCrd quiet_env 1002 ''release-pipe'' deploy_stage)) = ''release-pipe-deploy''
   \<and> ps_CodebaseBranch (cr_Spec (pipelineCrd quiet_env release_pipe)) = [''svc-a-master'']
   \<and> Status (cr_Status (pipelineCrd quiet_env release_pipe)) = ''initialized''
   \<and> Status (st_Status (createCrd quiet_env 1001 ''release-pipe'' build_stage)) = ''initialized''"
proof -
  have s: "\<forall>st \<in> set (cmd_Stages release_pipe).
       get_stage quiet_env empty_cluster (Namespace quiet_env) (cmd_Name release_pipe @ ''-'' @ sc_Name st) = Inl NotFound"
    by (simp add: scenario_values scenario_lookups)
  have d: "distinct (map sc_Name (cmd_Stages release_pipe))"
    by (simp add: scenario_values)
  have f: "\<forall>st \<in> set (cmd_Stages release_pipe).
       rest_failure quiet_env POST ''stages'' (cmd_Name release_pipe @ ''-'' @ sc_Name st) = None"
    by (simp add: scenario_values)
  have m: "meta_Name (st_ObjectMeta (createCrd quiet_env 1001 ''release-pipe'' build_stage)) = ''release-pipe-build''"
    "meta_Name (st_ObjectMeta (createCrd quiet_env 1002 ''release-pipe'' deploy_stage)) = ''release-pipe-deploy''"
    by (simp_all add: createCrd_def scenario_values)
  note inst = C1_creates_pipeline_and_stages[OF scenario_hypotheses(1,2,4) s d scenario_hypotheses(3) f]
  have run: "CreatePipeline quiet_env empty_cluster release_pipe =
       (Inr (pipelineCrd quiet_env release_pipe),
        \<lparr>cdpipelines = [pipelineCrd quiet_env release_pipe],
         stages = [createCrd quiet_env 1001 ''release-pipe'' build_stage,
                   createCrd quiet_env 1002 ''release-pipe'' deploy_stage]\<rparr>)"
    using inst by (simp add: scenario_values)
  have br: "ps_CodebaseBranch (cr_Spec (pipelineCrd quiet_env release_pipe)) = [''svc-a-master'']"
    using inst by (simp add: scenario_values)
  have st: "Status (cr_Status (pipelineCrd quiet_env release_pipe)) = ''initialized''"
    "Status (st_Status (createCrd quiet_env 1001 ''release-pipe'' build_stage)) = ''initialized''"
    using inst by (simp_all add: scenario_values)
  show ?thesis using run br st m scenario_hypotheses(1,2) scenario_lookups(1) by simp
qed

text \<open>
  The claim as it was stated asks only that the references resolve and that the name of
  the pipeline is in neither store. That is not enough: here the store already holds
  \<open>release-pipe-deploy\<close>, and the call fails after it has stored the pipeline resource.
\<close>

theorem C1_counterexample:
  "checkAppAndBranch quiet_env (cmd_Applications release_pipe)
   \<and> repo_GetCDPipelineByName quiet_env (cmd_Name release_pipe) = Inr None
   \<and> get_cdpipeline quiet_env cluster_with_deploy ''edp'' ''release-pipe'' = Inl NotFound
   \<and> CreatePipeline quiet_env cluster_with_deploy release_pipe =
       (Inl (ErrStageExists ''deploy''),
        cluster_with_deploy\<lparr>cdpipelines := [pipelineCrd quiet_env release_pipe]\<rparr>)"
proof -
  have "checkStagesInK8s quiet_env cluster_with_deploy ''release-pipe'' [build_stage, deploy_stage]
          = Some (ErrStageExists ''deploy'')"
    by (simp add: scenario_values scenario_lookups)
  then have "CreateStages quiet_env (Suc 0)
       (cluster_with_deploy\<lparr>cdpipelines := cdpipelines cluster_with_deploy @ [pipelineCrd quiet_env release_pipe]\<rparr>) release_pipe
       = (Inl (ErrStageExists ''deploy''),
          cluster_with_deploy\<lparr>cdpipelines := cdpipelines cluster_with_deploy @ [pipelineCrd quiet_env release_pipe]\<rparr>)"
    by (simp add: CreateStages_def scenario_values del: checkStagesInK8s.simps)
  then have "CreatePipeline quiet_env cluster_with_deploy release_pipe =
       (Inl (ErrStageExists ''deploy''),
        cluster_with_deploy\<lparr>cdpipelines := cdpipelines cluster_with_deploy @ [pipelineCrd quiet_env release_pipe]\<rparr>)"
    using CreatePipeline_posted[OF scenario_hypotheses(1,2,6) scenario_hypotheses(3)] by simp
  then show ?thesis using scenario_hypotheses(1,2) scenario_lookups(3) by (simp add: scenario_values(14))
qed

text \<open>
  C4, as the code has it. For a creation command that passes the reference check, whose
  name is in neither store and whose pipeline resource is stored: when the resource store
  holds the derived name of a requested stage, and no lookup of a requested stage fails
  with an error other than \<open>NotFound\<close>, \<open>CreatePipeline\<close> fails with the stage-exists error
  of a requested stage, and the store is the one it was plus the pipeline resource: the
  pipeline resource stays, no stage resource is written.
\<close>

theorem C4_stage_exists_keeps_pipeline:
  assumes "checkAppAndBranch e (cmd_Applications cmd)"
    and "repo_GetCDPipelineByName e (cmd_Name cmd) = Inr None"
    and "get_cdpipeline e c (Namespace e) (cmd_Name cmd) = Inl NotFound"
    and "rest_failure e POST ''cdpipelines'' (cmd_Name cmd) = None"
    and "st \<in> set (cmd_Stages cmd)"
    and "get_stage e c (Namespace e) (cmd_Name cmd @ ''-'' @ sc_Name st) = Inr found"
    and "\<forall>s \<in> set (cmd_Stages cmd). \<forall>re.
           get_stage e c (Namespace e) (cmd_Name cmd @ ''-'' @ sc_Name s) = Inl re \<longrightarrow> re = NotFound"
  shows "\<exists>s \<in> set (cmd_Stages cmd).
           CreatePipeline e c cmd =
             (Inl (ErrStageExists (sc_Name s)),
              c\<lparr>cdpipelines := cdpipelines c @ [pipelineCrd e cmd]\<rparr>)"
proof -
  let ?c1 = "c\<lparr>cdpipelines := cdpipelines c @ [pipelineCrd e cmd]\<rparr>"
  obtain s where s: "s \<in> set (cmd_Stages cmd)"
    and chk: "checkStagesInK8s e c (cmd_Name cmd) (cmd_Stages cmd) = Some (ErrStageExists (sc_Name s))"
    using checkStagesInK8s_exists[OF assms(5,6,7)] by blast
  have "CreateStages e (Suc 0) ?c1 cmd = (Inl (ErrStageExists (sc_Name s)), ?c1)"
    using chk by (simp add: CreateStages_def)
  then have "CreatePipeline e c cmd = (Inl (ErrStageExists (sc_Name s)), ?c1)"
    using CreatePipeline_posted[OF assms(1-4)] by simp
  then show ?thesis using s by blast
qed

theorem C4_witness:
  "checkAppAndBranch quiet_env (cmd_Applications release_pipe)
   \<and> repo_GetCDPipelineByName quiet_env (cmd_Name release_pipe) = Inr None
   \<and> get_cdpipeline quiet_env cluster_with_build ''edp'' ''release-pipe'' = Inl NotFound
   \<and> get_stage quiet_env cluster_with_build ''edp'' ''release-pipe-build''
       = Inr (createCrd quiet_env 7 ''release-pipe'' build_stage)
   \<and> get_stage quiet_env cluster_with_build ''edp'' ''release-pipe-deploy'' = Inl NotFound
   \<and> (\<exists>s \<in> set (cmd_Stages release_pipe).
         CreatePipeline quiet_env cluster_with_build release_pipe =
           (Inl (ErrStageExists (sc_Name s)),
            cluster_with_build\<lparr>cdpipelines := cdpipelines cluster_with_build @ [pipelineCrd quiet_env release_pipe]\<rparr>))"
proof -
  have b: "build_stage \<in> set (cmd_Stages release_pipe)" by (simp add: scenario_values)
  have f: "get_stage quiet_env cluster_with_build (Namespace quiet_env)
             (cmd_Name release_pipe @ ''-'' @ sc_Name build_stage)
           = Inr (createCrd quiet_env 7 ''release-pipe'' build_stage)"
    by (simp add: scenario_values scenario_lookups)
  have n: "\<forall>s \<in> set (cmd_Stages release_pipe). \<forall>re.
       get_stage quiet_env cluster_with_build (Namespace quiet_env)
         (cmd_Name release_pipe @ ''-'' @ sc_Name s) = Inl re \<longrightarrow> re = NotFound"
    by (simp add: scenario_values scenario_lookups)
  from C4_stage_exists_keeps_pipeline[OF scenario_hypotheses(1,2,5) scenario_hypotheses(3) b f n]
    scenario_hypotheses(1,2) scenario_lookups(2,6,7)
  show ?thesis by blast
qed

text \<open>
  The claim as it was stated fails inside a call that has stored the pipeline resource.
  The stages are looked up in the order of the command, and a lookup that fails with an
  error other than \<open>NotFound\<close> ends the call with that error. Here the store holds
  \<open>release-pipe-deploy\<close>, the derived name of the second requested stage, and the lookup
  of the first, \<open>release-pipe-build\<close>, fails: the pipeline resource is stored, and the call
  ends with the error of the lookup, not with the stage-exists error.
\<close>

theorem C4_counterexample:
  "checkAppAndBranch env_stage_get_fails (cmd_Applications release_pipe)
   \<and> repo_GetCDPipelineByName env_stage_get_fails (cmd_Name release_pipe) = Inr None
   \<and> get_cdpipeline env_stage_get_fails cluster_with_deploy ''edp'' ''release-pipe'' = Inl NotFound
   \<and> cmd_Stages release_pipe = [build_stage, deploy_stage]
   \<and> get_stage env_stage_get_fails cluster_with_deploy ''edp'' ''release-pipe-deploy''
       = Inr (createCrd quiet_env 7 ''release-pipe'' deploy_stage)
   \<and> get_stage env_stage_get_fails cluster_with_deploy ''edp'' ''release-pipe-build''
       = Inl (ServerError ''connection refused'')
   \<and> CreatePipeline env_stage_get_fails cluster_with_deploy release_pipe
       = (Inl (RestError (ServerError ''connection refused'')),
          cluster_with_deploy\<lparr>cdpipelines := [pipelineCrd env_stage_get_fails release_pipe]\<rparr>)"
proof -
  have v: "checkAppAndBranch env_stage_get_fails (cmd_Applications release_pipe)"
    "repo_GetCDPipelineByName env_stage_get_fails (cmd_Name release_pipe) = Inr None"
    "rest_failure env_stage_get_fails POST ''cdpipelines'' (cmd_Name release_pipe) = None"
    "Namespace env_stage_get_fails = ''edp''"
    by (simp_all add: env_stage_get_fails_def scenario_values quiet_env_def)
  have g: "get_cdpipeline env_stage_get_fails cluster_with_deploy ''edp'' ''release-pipe'' = Inl NotFound"
    by (simp add: env_stage_get_fails_def quiet_env_def cluster_with_deploy_def get_cdpipeline_def)
  have g': "get_cdpipeline env_stage_get_fails cluster_with_deploy (Namespace env_stage_get_fails)
              (cmd_Name release_pipe) = Inl NotFound"
    using g by (simp add: v(4) scenario_values(1))
  have d: "get_stage env_stage_get_fails cluster_with_deploy ''edp'' ''release-pipe-deploy''
       = Inr (createCrd quiet_env 7 ''release-pipe'' deploy_stage)"
    by (simp add: env_stage_get_fails_def quiet_env_def cluster_with_deploy_def get_stage_def
          createCrd_def deploy_stage_def)
  have b: "get_stage env_stage_get_fails cluster_with_deploy ''edp'' ''release-pipe-build''
       = Inl (ServerError ''connection refused'')"
    by (simp add: env_stage_get_fails_def get_stage_def)
  have chk: "checkStagesInK8s env_stage_get_fails cluster_with_deploy ''release-pipe''
               [build_stage, deploy_stage] = Some (RestError (ServerError ''connection refused''))"
    by (simp add: v(4) scenario_values(7) b)
  have cs: "CreateStages env_stage_get_fails (Suc 0)
       (cluster_with_deploy\<lparr>cdpipelines := cdpipelines cluster_with_deploy
            @ [pipelineCrd env_stage_get_fails release_pipe]\<rparr>) release_pipe
       = (Inl (RestError (ServerError ''connection refused'')),
          cluster_with_deploy\<lparr>cdpipelines := cdpipelines cluster_with_deploy
            @ [pipelineCrd env_stage_get_fails release_pipe]\<rparr>)"
    by (simp add: CreateStages_def scenario_values(1,2) chk del: checkStagesInK8s.simps)
  have cp: "CreatePipeline env_stage_get_fails cluster_with_deploy release_pipe
       = (Inl (RestError (ServerError ''connection refused'')),
          cluster_with_deploy\<lparr>cdpipelines := [pipelineCrd env_stage_get_fails release_pipe]\<rparr>)"
    using CreatePipeline_posted[OF v(1,2) g' v(3)] cs by (simp add: scenario_values(14))
  show ?thesis using v(1,2) g scenario_values(2) d b cp by (intro conjI)
qed

text \<open>
  C10. \<open>CreateStages\<close> checks every requested stage before it writes one: if the call has
  changed the stage resources of the store, then every lookup of a requested stage had
  answered \<open>NotFound\<close> on the store as it was before. So when \<open>CreatePipeline\<close> fails
  with the stage-exists error, the stage resources of the store are those it had before
  the call, and the pipeline resources are those it had plus the new one.
\<close>

theorem C10_checks_before_writes:
  "(CreateStages e k c cmd = (r, c') \<and> stages c' \<noteq> stages c \<longrightarrow>
      (\<forall>st \<in> set (cmd_Stages cmd).
          get_stage e c (Namespace e) (cmd_Name cmd @ ''-'' @ sc_Name st) = Inl NotFound))
   \<and> (CreatePipeline e c cmd = (Inl (ErrStageExists n), c'') \<longrightarrow>
        stages c'' = stages c \<and> cdpipelines c'' = cdpipelines c @ [pipelineCrd e cmd])"
proof (rule conjI; rule impI)
  assume h: "CreateStages e k c cmd = (r, c') \<and> stages c' \<noteq> stages c"
  have "checkStagesInK8s e c (cmd_Name cmd) (cmd_Stages cmd) = None"
  proof (cases "checkStagesInK8s e c (cmd_Name cmd) (cmd_Stages cmd)")
    case None
    then show ?thesis .
  next
    case (Some err)
    then have "c' = c" using h by (simp add: CreateStages_def)
    then show ?thesis using h by simp
  qed
  then show "\<forall>st \<in> set (cmd_Stages cmd).
          get_stage e c (Namespace e) (cmd_Name cmd @ ''-'' @ sc_Name st) = Inl NotFound"
    by (simp add: checkStagesInK8s_None)
next
  assume h: "CreatePipeline e c cmd = (Inl (ErrStageExists n), c'')"
  have a: "checkAppAndBranch e (cmd_Applications cmd)"
    using h by (auto simp: CreatePipeline_def split: if_splits)
  have b: "repo_GetCDPipelineByName e (cmd_Name cmd) = Inr None"
    using h a by (auto simp: CreatePipeline_def GetCDPipelineByName_def Let_def split: sum.splits option.splits)
  have g: "get_cdpipeline e c (Namespace e) (cmd_Name cmd) = Inl NotFound"
    using h a b
    by (auto simp: CreatePipeline_def GetCDPipelineByName_def getCDPipelineCR_def
          split: sum.splits option.splits if_splits)
  note eq = CreatePipeline_checked[OF a b g]
  obtain r1 c1 where p1: "post_cdpipeline e c (pipelineCrd e cmd) = (r1, c1)"
    by (cases "post_cdpipeline e c (pipelineCrd e cmd)")
  show "stages c'' = stages c \<and> cdpipelines c'' = cdpipelines c @ [pipelineCrd e cmd]"
  proof (cases r1)
    case (Inl re)
    then show ?thesis using h eq p1 by simp
  next
    case (Inr cr)
    then have c1: "c1 = c\<lparr>cdpipelines := cdpipelines c @ [pipelineCrd e cmd]\<rparr>"
      using p1 by (auto dest: post_cdpipeline_Inr)
    obtain r2 c2 where p2: "CreateStages e (Suc 0) c1 cmd = (r2, c2)"
      by (cases "CreateStages e (Suc 0) c1 cmd")
    have "r2 = Inl (ErrStageExists n) \<and> c2 = c''"
      using h eq p1 p2 Inr by (cases r2) simp_all
    then have "c'' = c1" using p2 by (auto dest: CreateStages_stage_exists)
    then show ?thesis using c1 by simp
  qed
qed

theorem C10_witness:
  "CreateStages quiet_env (Suc 0) empty_cluster release_pipe =
       (Inr [createCrd quiet_env 1001 ''release-pipe'' build_stage,
             createCrd quiet_env 1002 ''release-pipe'' deploy_stage],
        \<lparr>cdpipelines = [],
         stages = [createCrd quiet_env 1001 ''release-pipe'' build_stage,
                   createCrd quiet_env 1002 ''release-pipe'' deploy_stage]\<rparr>)
   \<and> stages empty_cluster = []
   \<and> get_stage quiet_env empty_cluster ''edp'' ''release-pipe-build'' = Inl NotFound
   \<and> get_stage quiet_env empty_cluster ''edp'' ''release-pipe-deploy'' = Inl NotFound
   \<and> CreatePipeline quiet_env cluster_with_build release_pipe =
       (Inl (ErrStageExists ''build''),
        cluster_with_build\<lparr>cdpipelines := [pipelineCrd quiet_env release_pipe]\<rparr>)
   \<and> stages (cluster_with_build\<lparr>cdpipelines := [pipelineCrd quiet_env release_pipe]\<rparr>)
       = stages cluster_with_build
   \<and> cdpipelines (cluster_with_build\<lparr>cdpipelines := [pipelineCrd quiet_env release_pipe]\<rparr>)
       = cdpipelines cluster_with_build @ [pipelineCrd quiet_env release_pipe]"
proof -
  let ?b = "createCrd quiet_env 1001 ''release-pipe'' build_stage"
  let ?d = "createCrd quiet_env 1002 ''release-pipe'' deploy_stage"
  have chk: "checkStagesInK8s quiet_env empty_cluster ''release-pipe'' [build_stage, deploy_stage] = None"
    by (simp add: scenario_values scenario_lookups)
  have pb: "post_stage quiet_env empty_cluster ?b = (Inr ?b, \<lparr>cdpipelines = [], stages = [?b]\<rparr>)"
    by (simp add: post_stage_def empty_cluster_def quiet_env_def)
  have pd: "post_stage quiet_env \<lparr>cdpipelines = [], stages = [?b]\<rparr> ?d
              = (Inr ?d, \<lparr>cdpipelines = [], stages = [?b, ?d]\<rparr>)"
    by (simp add: post_stage_def createCrd_def scenario_values)
  have sv: "saveStagesIntoK8s quiet_env (Suc 0) empty_cluster ''release-pipe'' [build_stage, deploy_stage]
              = (Inr [?b, ?d], \<lparr>cdpipelines = [], stages = [?b, ?d]\<rparr>)"
    by (simp add: scenario_values(15) pb pd)
  have cs: "CreateStages quiet_env (Suc 0) empty_cluster release_pipe =
       (Inr [?b, ?d], \<lparr>cdpipelines = [], stages = [?b, ?d]\<rparr>)"
    by (simp add: CreateStages_def scenario_values(1,2) chk sv
          del: checkStagesInK8s.simps saveStagesIntoK8s.simps)
  have chk2: "checkStagesInK8s quiet_env cluster_with_build ''release-pipe'' [build_stage, deploy_stage]
                = Some (ErrStageExists ''build'')"
    by (simp add: scenario_values scenario_lookups)
  have cs2: "CreateStages quiet_env (Suc 0)
       (cluster_with_build\<lparr>cdpipelines := cdpipelines cluster_with_build @ [pipelineCrd quiet_env release_pipe]\<rparr>) release_pipe
       = (Inl (ErrStageExists ''build''),
          cluster_with_build\<lparr>cdpipelines := cdpipelines cluster_with_build @ [pipelineCrd quiet_env release_pipe]\<rparr>)"
    by (simp add: CreateStages_def scenario_values(1,2) chk2 del: checkStagesInK8s.simps)
  have cp: "CreatePipeline quiet_env cluster_with_build release_pipe =
       (Inl (ErrStageExists ''build''),
        cluster_with_build\<lparr>cdpipelines := [pipelineCrd quiet_env release_pipe]\<rparr>)"
    using CreatePipeline_posted[OF scenario_hypotheses(1,2,5) scenario_hypotheses(3)] cs2
    by (simp add: scenario_values(13))
  have ne: "stages \<lparr>cdpipelines = [], stages = [?b, ?d]\<rparr> \<noteq> stages empty_cluster"
    by (simp add: scenario_values)
  from C10_checks_before_writes[of quiet_env "Suc 0" empty_cluster release_pipe
        "Inr [?b, ?d]" "\<lparr>cdpipelines = [], stages = [?b, ?d]\<rparr>"] cs ne
  have first: "get_stage quiet_env empty_cluster ''edp'' ''release-pipe-build'' = Inl NotFound"
    "get_stage quiet_env empty_cluster ''edp'' ''release-pipe-deploy'' = Inl NotFound"
    by (simp_all add: scenario_values)
  from C10_checks_before_writes[of quiet_env _ cluster_with_build release_pipe _ _ "''build''"
        "cluster_with_build\<lparr>cdpipelines := [pipelineCrd quiet_env release_pipe]\<rparr>"] cp
  have second: "stages (cluster_with_build\<lparr>cdpipelines := [pipelineCrd quiet_env release_pipe]\<rparr>)
       = stages cluster_with_build"
    "cdpipelines (cluster_with_build\<lparr>cdpipelines := [pipelineCrd quiet_env release_pipe]\<rparr>)
       = cdpipelines cluster_with_build @ [pipelineCrd quiet_env release_pipe]"
    by simp_all
  show ?thesis using cs cp first second by (simp add: scenario_values(12))
qed

subsection \<open>The name pattern\<close>

text \<open>
  C9, as the code has it. The pattern on the name of the creation command, and the same
  pattern on the name of each stage, matches exactly the strings of at least two
  characters that are made of lowercase alphanumerics and hyphens and neither start nor
  end with a hyphen.
\<close>

theorem C9_name_pattern:
  "(MatchString CDPipelineCreateCommand_Name_pattern s \<longleftrightarrow> dns_label_like s \<and> 2 \<le> length s)
   \<and> (MatchString StageCreate_Name_pattern s \<longleftrightarrow> dns_label_like s \<and> 2 \<le> length s)"
  unfolding CDPipelineCreateCommand_Name_pattern_def StageCreate_Name_pattern_def
  using Name_pattern_shape[of s] shape_dns_label[of s] by simp

theorem C9_witness:
  "dns_label_like ''release-pipe'' \<and> MatchString CDPipelineCreateCommand_Name_pattern ''release-pipe''
   \<and> MatchString StageCreate_Name_pattern ''release-pipe''
   \<and> \<not> MatchString StageCreate_Name_pattern ''-build''"
proof -
  have "\<not> dns_label_like ''-build''" by (simp add: dns_label_like_def)
  then show ?thesis
    using C9_name_pattern[of "''release-pipe''"] C9_name_pattern[of "''-build''"]
      dns_label_release_pipe
    by simp
qed

text \<open>
  The claim as it was stated counts the names of a single character in. The group
  \<^verbatim>\<open>([-a-z0-9]*[a-z0-9])\<close> of the pattern is not optional, so a match has a first
  character and a last one after it: the name \<open>a\<close> is refused.
\<close>

theorem C9_counterexample:
  "dns_label_like ''a'' \<and> \<not> MatchString CDPipelineCreateCommand_Name_pattern ''a''
   \<and> \<not> MatchString StageCreate_Name_pattern ''a''"
  by (simp add: dns_label_a CDPipelineCreateCommand_Name_pattern_def StageCreate_Name_pattern_def
        in_class_def)

subsection \<open>Reading a pipeline\<close>

text \<open>
  C5, as the code has it. The sort on the read path is \<open>sort.Slice\<close> with the comparison
  \<open>stages[i].Order < stages[j].Order\<close>. For every list of stages, under the contract of
  \<open>sort.Slice\<close>, its result holds the same stages as the input and is ascending in
  \<open>Order\<close>. Nothing is said about the relative order of two stages of equal \<open>Order\<close>.
\<close>

theorem C5_sorted_by_order:
  "sort_Slice_contract (sort_Slice e) \<Longrightarrow>
   sorted (map qs_Order (sortStagesByOrder e stgs)) \<and> mset (sortStagesByOrder e stgs) = mset stgs"
  by (simp add: sortStagesByOrder_sorts)

theorem C5_witness:
  "sort_Slice_contract (sort_Slice quiet_env)
   \<and> sorted (map qs_Order (sortStagesByOrder quiet_env seven_stages))
   \<and> mset (sortStagesByOrder quiet_env seven_stages) = mset seven_stages
   \<and> map qs_Order (sortStagesByOrder quiet_env seven_stages) = [0, 1, 1, 1, 1, 1, 1]"
proof -
  have c: "sort_Slice_contract (sort_Slice quiet_env)"
    by (simp add: quiet_env_def shortSort_contract)
  have "map qs_Order (sortStagesByOrder quiet_env seven_stages) = [0, 1, 1, 1, 1, 1, 1]"
    by (simp add: seven_sorted row7_def stage_row_def)
  then show ?thesis using C5_sorted_by_order[OF c, of seven_stages] c by simp
qed

text \<open>
  The claim as it was stated also asks for stability. \<open>sort.Slice\<close> does not promise it
  (\<open>sort.SliceStable\<close> does), and the sort that Go's library up to 1.18 runs on a short
  slice meets the contract and is not stable: of seven stages, the first six of order 1
  and the last of order 0, the first one ends up behind the five it was in front of.
\<close>

theorem C5_counterexample:
  "sort_Slice_contract (sort_Slice quiet_env)
   \<and> map qs_Name (filter (\<lambda>s. qs_Order s = 1) seven_stages)
       = [''s0'', ''s1'', ''s2'', ''s3'', ''s4'', ''s5'']
   \<and> map qs_Name (filter (\<lambda>s. qs_Order s = 1) (sortStagesByOrder quiet_env seven_stages))
       = [''s1'', ''s2'', ''s3'', ''s4'', ''s5'', ''s0'']
   \<and> filter (\<lambda>s. qs_Order s = 1) (sortStagesByOrder quiet_env seven_stages)
       \<noteq> filter (\<lambda>s. qs_Order s = 1) seven_stages"
proof -
  have c: "sort_Slice_contract (sort_Slice quiet_env)"
    by (simp add: quiet_env_def shortSort_contract)
  have a: "map qs_Name (filter (\<lambda>s. qs_Order s = 1) seven_stages)
       = [''s0'', ''s1'', ''s2'', ''s3'', ''s4'', ''s5'']"
    by (simp add: seven_stages_def row7_def stage_row_def)
  have b: "map qs_Name (filter (\<lambda>s. qs_Order s = 1) (sortStagesByOrder quiet_env seven_stages))
       = [''s1'', ''s2'', ''s3'', ''s4'', ''s5'', ''s0'']"
    by (simp add: seven_sorted row7_def stage_row_def)
  have "filter (\<lambda>s. qs_Order s = 1) (sortStagesByOrder quiet_env seven_stages)
       \<noteq> filter (\<lambda>s. qs_Order s = 1) seven_stages"
  proof
    assume "filter (\<lambda>s. qs_Order s = 1) (sortStagesByOrder quiet_env seven_stages)
       = filter (\<lambda>s. qs_Order s = 1) seven_stages"
    then have "map qs_Name (filter (\<lambda>s. qs_Order s = 1) (sortStagesByOrder quiet_env seven_stages))
       = map qs_Name (filter (\<lambda>s. qs_Order s = 1) seven_stages)" by simp
    then show False using a b by simp
  qed
  then show ?thesis using a b c by simp
qed

text \<open>
  C6. For a pipeline that the read model holds, and under the contract of \<open>sort.Slice\<close>,
  \<open>GetCDPipelineByName\<close> returns a view of that pipeline with the Jenkins link attached.
  Its stages are the stage records of the row, rearranged into ascending \<open>Order\<close> (orders
  \<open>[2,0,1]\<close> come out as \<open>[0,1,2]\<close>) and changed in nothing but the project link, which is
  derived from the pipeline's and the stage's name. Its branch associations are those of
  the row, in their order, with their branch names and codebases, and each has its
  \<open>AppName\<close> set to the name of its own codebase.
\<close>

theorem C6_enriched_view:
  assumes "sort_Slice_contract (sort_Slice e)"
    and "repo_GetCDPipelineByName e name = Inr (Some row)"
  shows "\<exists>view. GetCDPipelineByName e name = Inr (Some view)
     \<and> pl_Name view = pl_Name row
     \<and> pl_JenkinsLink view = ''https://jenkins-'' @ Tenant e @ ''-edp-cicd.'' @ dnsWildcard e
          @ ''/job/'' @ pl_Name row @ ''-cd-pipeline''
     \<and> sorted (map qs_Order (pl_Stage view))
     \<and> mset (map qs_Name (pl_Stage view)) = mset (map qs_Name (pl_Stage row))
     \<and> mset (map qs_Order (pl_Stage view)) = mset (map qs_Order (pl_Stage row))
     \<and> (map qs_Order (pl_Stage row) = [2, 0, 1] \<longrightarrow> map qs_Order (pl_Stage view) = [0, 1, 2])
     \<and> (\<forall>s \<in> set (pl_Stage view).
           qs_OpenshiftProjectLink s = ''https://master.'' @ dnsWildcard e @ ''/console/project/''
              @ Tenant e @ ''-'' @ pl_Name row @ ''-'' @ qs_Name s)
     \<and> length (pl_CodebaseBranch view) = length (pl_CodebaseBranch row)
     \<and> (\<forall>b \<in> set (pl_CodebaseBranch view). br_AppName b = cb_Name (br_Codebase b))
     \<and> (\<exists>ss. mset ss = mset (pl_Stage row) \<and> sorted (map qs_Order ss)
           \<and> pl_Stage view = map (\<lambda>s. s\<lparr>qs_OpenshiftProjectLink :=
                    ''https://master.'' @ dnsWildcard e @ ''/console/project/''
                      @ Tenant e @ ''-'' @ pl_Name row @ ''-'' @ qs_Name s\<rparr>) ss)
     \<and> map br_Codebase (pl_CodebaseBranch view) = map br_Codebase (pl_CodebaseBranch row)
     \<and> map br_Name (pl_CodebaseBranch view) = map br_Name (pl_CodebaseBranch row)
     \<and> map br_AppName (pl_CodebaseBranch view)
          = map (\<lambda>b. cb_Name (br_Codebase b)) (pl_CodebaseBranch row)"
proof -
  let ?ss = "sortStagesByOrder e (pl_Stage row)"
  let ?stgs = "if pl_Stage row \<noteq> [] then createOpenshiftProjectLinks e ?ss (pl_Name row)
               else pl_Stage row"
  let ?view = "row\<lparr>pl_JenkinsLink := ''https://jenkins-'' @ Tenant e @ ''-edp-cicd.'' @ dnsWildcard e
              @ ''/job/'' @ pl_Name row @ ''-cd-pipeline'',
          pl_Stage := ?stgs,
          pl_CodebaseBranch := map (\<lambda>branch. branch\<lparr>br_AppName := cb_Name (br_Codebase branch)\<rparr>)
                                   (createLinksForBranchEntities e (pl_CodebaseBranch row))\<rparr>"
  have run: "GetCDPipelineByName e name = Inr (Some ?view)"
    using assms(2) by (rule GetCDPipelineByName_found)
  have ms: "mset ?ss = mset (pl_Stage row)" and so: "sorted (map qs_Order ?ss)"
    using assms(1) by (rule sortStagesByOrder_sorts)+
  have ord: "map qs_Order ?stgs = map qs_Order ?ss \<or> ?stgs = []"
    and nam: "map qs_Name ?stgs = map qs_Name ?ss \<or> (?stgs = [] \<and> pl_Stage row = [])"
    by (simp_all add: createOpenshiftProjectLinks_keeps)
  have sorted: "sorted (map qs_Order ?stgs)" using so ord by auto
  have mo: "mset (map qs_Order ?ss) = mset (map qs_Order (pl_Stage row))"
    and mn: "mset (map qs_Name ?ss) = mset (map qs_Name (pl_Stage row))"
    using ms by (metis mset_map)+
  have mo': "mset (map qs_Order ?stgs) = mset (map qs_Order (pl_Stage row))"
    and mn': "mset (map qs_Name ?stgs) = mset (map qs_Name (pl_Stage row))"
  proof -
    have "map qs_Order ?stgs = map qs_Order ?ss \<or> ?stgs = pl_Stage row"
      by (simp add: createOpenshiftProjectLinks_keeps)
    then show "mset (map qs_Order ?stgs) = mset (map qs_Order (pl_Stage row))"
    proof
      assume "map qs_Order ?stgs = map qs_Order ?ss"
      then have "mset (map qs_Order ?stgs) = mset (map qs_Order ?ss)" by (rule arg_cong)
      then show ?thesis using mo by (rule trans)
    next
      assume "?stgs = pl_Stage row"
      then show ?thesis by (rule arg_cong)
    qed
    have "map qs_Name ?stgs = map qs_Name ?ss \<or> ?stgs = pl_Stage row"
      by (simp add: createOpenshiftProjectLinks_keeps)
    then show "mset (map qs_Name ?stgs) = mset (map qs_Name (pl_Stage row))"
    proof
      assume "map qs_Name ?stgs = map qs_Name ?ss"
      then have "mset (map qs_Name ?stgs) = mset (map qs_Name ?ss)" by (rule arg_cong)
      then show ?thesis using mn by (rule trans)
    next
      assume "?stgs = pl_Stage row"
      then show ?thesis by (rule arg_cong)
    qed
  qed
  have ex: "map qs_Order (pl_Stage row) = [2, 0, 1] \<longrightarrow> map qs_Order ?stgs = [0, 1, 2]"
  proof
    assume h: "map qs_Order (pl_Stage row) = [2, 0, 1]"
    then have "mset (map qs_Order ?stgs) = mset [2, 0, 1]" using mo' by simp
    with sorted show "map qs_Order ?stgs = [0, 1, 2]" by (rule sorted_201)
  qed
  have links: "\<forall>s \<in> set ?stgs.
           qs_OpenshiftProjectLink s = ''https://master.'' @ dnsWildcard e @ ''/console/project/''
              @ Tenant e @ ''-'' @ pl_Name row @ ''-'' @ qs_Name s"
    by (auto simp: createOpenshiftProjectLinks_def OpenshiftProjectLink_def)
  have apps: "\<forall>b \<in> set (map (\<lambda>branch. branch\<lparr>br_AppName := cb_Name (br_Codebase branch)\<rparr>)
                              (createLinksForBranchEntities e (pl_CodebaseBranch row))).
                br_AppName b = cb_Name (br_Codebase b)"
    by auto
  have len: "length (map (\<lambda>branch. branch\<lparr>br_AppName := cb_Name (br_Codebase branch)\<rparr>)
                              (createLinksForBranchEntities e (pl_CodebaseBranch row)))
             = length (pl_CodebaseBranch row)"
    by (simp add: createLinksForBranchEntities_def)
  have perm: "\<exists>ss. mset ss = mset (pl_Stage row) \<and> sorted (map qs_Order ss)
           \<and> ?stgs = map (\<lambda>s. s\<lparr>qs_OpenshiftProjectLink :=
                    ''https://master.'' @ dnsWildcard e @ ''/console/project/''
                      @ Tenant e @ ''-'' @ pl_Name row @ ''-'' @ qs_Name s\<rparr>) ss"
  proof (cases "pl_Stage row \<noteq> []")
    case True
    then have "?stgs = map (\<lambda>s. s\<lparr>qs_OpenshiftProjectLink :=
                    ''https://master.'' @ dnsWildcard e @ ''/console/project/''
                      @ Tenant e @ ''-'' @ pl_Name row @ ''-'' @ qs_Name s\<rparr>) ?ss"
      by (simp add: createOpenshiftProjectLinks_def OpenshiftProjectLink_def)
    with ms so have "mset ?ss = mset (pl_Stage row) \<and> sorted (map qs_Order ?ss)
           \<and> ?stgs = map (\<lambda>s. s\<lparr>qs_OpenshiftProjectLink :=
                    ''https://master.'' @ dnsWildcard e @ ''/console/project/''
                      @ Tenant e @ ''-'' @ pl_Name row @ ''-'' @ qs_Name s\<rparr>) ?ss"
      by (intro conjI)
    then show ?thesis by (rule exI[of _ ?ss])
  next
    case False
    then have "mset [] = mset (pl_Stage row) \<and> sorted (map qs_Order [])
           \<and> ?stgs = map (\<lambda>s. s\<lparr>qs_OpenshiftProjectLink :=
                    ''https://master.'' @ dnsWildcard e @ ''/console/project/''
                      @ Tenant e @ ''-'' @ pl_Name row @ ''-'' @ qs_Name s\<rparr>) []"
      by simp
    then show ?thesis by (rule exI[of _ "[]"])
  qed
  have brs: "map br_Codebase (map (\<lambda>branch. branch\<lparr>br_AppName := cb_Name (br_Codebase branch)\<rparr>)
                 (createLinksForBranchEntities e (pl_CodebaseBranch row)))
               = map br_Codebase (pl_CodebaseBranch row)"
    and brn: "map br_Name (map (\<lambda>branch. branch\<lparr>br_AppName := cb_Name (br_Codebase branch)\<rparr>)
                 (createLinksForBranchEntities e (pl_CodebaseBranch row)))
               = map br_Name (pl_CodebaseBranch row)"
    and bra: "map br_AppName (map (\<lambda>branch. branch\<lparr>br_AppName := cb_Name (br_Codebase branch)\<rparr>)
                 (createLinksForBranchEntities e (pl_CodebaseBranch row)))
               = map (\<lambda>b. cb_Name (br_Codebase b)) (pl_CodebaseBranch row)"
    by (simp_all add: createLinksForBranchEntities_def comp_def)
  have st: "pl_Stage ?view = ?stgs" and nm: "pl_Name ?view = pl_Name row"
    and jl: "pl_JenkinsLink ?view = ''https://jenkins-'' @ Tenant e @ ''-edp-cicd.'' @ dnsWildcard e
          @ ''/job/'' @ pl_Name row @ ''-cd-pipeline''"
    and cb: "pl_CodebaseBranch ?view = map (\<lambda>branch. branch\<lparr>br_AppName := cb_Name (br_Codebase branch)\<rparr>)
                                   (createLinksForBranchEntities e (pl_CodebaseBranch row))"
    by simp_all
  have all: "GetCDPipelineByName e name = Inr (Some ?view)
     \<and> pl_Name ?view = pl_Name row
     \<and> pl_JenkinsLink ?view = ''https://jenkins-'' @ Tenant e @ ''-edp-cicd.'' @ dnsWildcard e
          @ ''/job/'' @ pl_Name row @ ''-cd-pipeline''
     \<and> sorted (map qs_Order (pl_Stage ?view))
     \<and> mset (map qs_Name (pl_Stage ?view)) = mset (map qs_Name (pl_Stage row))
     \<and> mset (map qs_Order (pl_Stage ?view)) = mset (map qs_Order (pl_Stage row))
     \<and> (map qs_Order (pl_Stage row) = [2, 0, 1] \<longrightarrow> map qs_Order (pl_Stage ?view) = [0, 1, 2])
     \<and> (\<forall>s \<in> set (pl_Stage ?view).
           qs_OpenshiftProjectLink s = ''https://master.'' @ dnsWildcard e @ ''/console/project/''
              @ Tenant e @ ''-'' @ pl_Name row @ ''-'' @ qs_Name s)
     \<and> length (pl_CodebaseBranch ?view) = length (pl_CodebaseBranch row)
     \<and> (\<forall>b \<in> set (pl_CodebaseBranch ?view). br_AppName b = cb_Name (br_Codebase b))
     \<and> (\<exists>ss. mset ss = mset (pl_Stage row) \<and> sorted (map qs_Order ss)
           \<and> pl_Stage ?view = map (\<lambda>s. s\<lparr>qs_OpenshiftProjectLink :=
                    ''https://master.'' @ dnsWildcard e @ ''/console/project/''
                      @ Tenant e @ ''-'' @ pl_Name row @ ''-'' @ qs_Name s\<rparr>) ss)
     \<and> map br_Codebase (pl_CodebaseBranch ?view) = map br_Codebase (pl_CodebaseBranch row)
     \<and> map br_Name (pl_CodebaseBranch ?view) = map br_Name (pl_CodebaseBranch row)
     \<and> map br_AppName (pl_CodebaseBranch ?view)
          = map (\<lambda>b. cb_Name (br_Codebase b)) (pl_CodebaseBranch row)"
    unfolding st cb
    apply (intro conjI)
             apply (rule run)
            apply (rule nm)
           apply (rule jl)
          apply (rule sorted)
         apply (rule mn')
        apply (rule mo')
       apply (rule ex)
      apply (rule links)
         apply (rule len)
        apply (rule apps)
       apply (rule perm)
      apply (rule brs)
     apply (rule brn)
    apply (rule bra)
    done
  show ?thesis by (rule exI[of _ ?view]) (rule all)
qed

theorem C6_witness:
  "sort_Slice_contract (sort_Slice env_with_row)
   \<and> repo_GetCDPipelineByName env_with_row ''release-pipe'' = Inr (Some pipe_row)
   \<and> map qs_Order (pl_Stage pipe_row) = [2, 0, 1]
   \<and> (\<exists>view. GetCDPipelineByName env_with_row ''release-pipe'' = Inr (Some view)
         \<and> map qs_Order (pl_Stage view) = [0, 1, 2]
         \<and> map qs_Name (pl_Stage view) = [''dev'', ''qa'', ''prod'']
         \<and> map (\<lambda>s. (qs_Name s, qs_Order s)) (pl_Stage view)
              = [(''dev'', 0), (''qa'', 1), (''prod'', 2)]
         \<and> pl_JenkinsLink view
              = ''https://jenkins-acme-edp-cicd.apps.example.com/job/release-pipe-cd-pipeline''
         \<and> map qs_OpenshiftProjectLink (pl_Stage view)
              = [''https://master.apps.example.com/console/project/acme-release-pipe-dev'',
                 ''https://master.apps.example.com/console/project/acme-release-pipe-qa'',
                 ''https://master.apps.example.com/console/project/acme-release-pipe-prod'']
         \<and> map br_AppName (pl_CodebaseBranch view) = [''svc-a''])"
proof -
  have c: "sort_Slice_contract (sort_Slice env_with_row)"
    by (simp add: row_values(4) shortSort_contract)
  have o: "map qs_Order (pl_Stage pipe_row) = [2, 0, 1]"
    by (simp add: row_values)
  from C6_enriched_view[OF c row_values(1)] obtain view where
    v: "GetCDPipelineByName env_with_row ''release-pipe'' = Inr (Some view)"
    and l: "pl_JenkinsLink view = ''https://jenkins-'' @ Tenant env_with_row @ ''-edp-cicd.''
              @ dnsWildcard env_with_row @ ''/job/'' @ pl_Name pipe_row @ ''-cd-pipeline''"
    and i: "map qs_Order (pl_Stage pipe_row) = [2, 0, 1] \<longrightarrow> map qs_Order (pl_Stage view) = [0, 1, 2]"
    by (elim exE conjE)
  let ?explicit = "pipe_row\<lparr>pl_JenkinsLink := ''https://jenkins-'' @ Tenant env_with_row @ ''-edp-cicd.''
              @ dnsWildcard env_with_row @ ''/job/'' @ pl_Name pipe_row @ ''-cd-pipeline'',
          pl_Stage := (if pl_Stage pipe_row \<noteq> []
                       then createOpenshiftProjectLinks env_with_row
                              (sortStagesByOrder env_with_row (pl_Stage pipe_row)) (pl_Name pipe_row)
                       else pl_Stage pipe_row),
          pl_CodebaseBranch := map (\<lambda>branch. branch\<lparr>br_AppName := cb_Name (br_Codebase branch)\<rparr>)
                                   (createLinksForBranchEntities env_with_row (pl_CodebaseBranch pipe_row))\<rparr>"
  have run: "GetCDPipelineByName env_with_row ''release-pipe'' = Inr (Some ?explicit)"
    using row_values(1) by (rule GetCDPipelineByName_found)
  have "Inr (Some view) = (Inr (Some ?explicit) :: error + query_CDPipeline option)"
    using v[symmetric] run by (rule trans)
  then have veq: "view = ?explicit" by (simp only: sum.inject option.inject)
  have ne: "pl_Stage pipe_row \<noteq> []" by (simp add: row_values(6))
  have stg: "pl_Stage view = createOpenshiftProjectLinks env_with_row
                [stage_row ''dev'' 0, stage_row ''qa'' 1, stage_row ''prod'' 2] ''release-pipe''"
    unfolding veq using ne by (simp add: pipe_row_sorted row_values(5))
  have br: "pl_CodebaseBranch view = map (\<lambda>branch. branch\<lparr>br_AppName := cb_Name (br_Codebase branch)\<rparr>)
                                   (createLinksForBranchEntities env_with_row [branch_row])"
    unfolding veq by (simp add: row_values(7))
  have names: "map qs_Name (pl_Stage view) = [''dev'', ''qa'', ''prod'']"
    by (simp add: stg createOpenshiftProjectLinks_keeps row_values(9))
  have links: "map qs_OpenshiftProjectLink (pl_Stage view)
              = [''https://master.apps.example.com/console/project/acme-release-pipe-dev'',
                 ''https://master.apps.example.com/console/project/acme-release-pipe-qa'',
                 ''https://master.apps.example.com/console/project/acme-release-pipe-prod'']"
    by (simp add: stg createOpenshiftProjectLinks_def OpenshiftProjectLink_def row_values)
  have apps: "map br_AppName (pl_CodebaseBranch view) = [''svc-a'']"
    by (simp add: br createLinksForBranchEntities_def branch_row_def)
  have pairs: "map (\<lambda>s. (qs_Name s, qs_Order s)) (pl_Stage view)
              = [(''dev'', 0), (''qa'', 1), (''prod'', 2)]"
    by (simp add: stg createOpenshiftProjectLinks_def row_values(8,9))
  have jl: "pl_JenkinsLink view
              = ''https://jenkins-acme-edp-cicd.apps.example.com/job/release-pipe-cd-pipeline''"
    using l by (simp add: row_values)
  have ord: "map qs_Order (pl_Stage view) = [0, 1, 2]" using i o by simp
  have "GetCDPipelineByName env_with_row ''release-pipe'' = Inr (Some view)
         \<and> map qs_Order (pl_Stage view) = [0, 1, 2]
         \<and> map qs_Name (pl_Stage view) = [''dev'', ''qa'', ''prod'']
         \<and> map (\<lambda>s. (qs_Name s, qs_Order s)) (pl_Stage view)
              = [(''dev'', 0), (''qa'', 1), (''prod'', 2)]
         \<and> pl_JenkinsLink view
              = ''https://jenkins-acme-edp-cicd.apps.example.com/job/release-pipe-cd-pipeline''
         \<and> map qs_OpenshiftProjectLink (pl_Stage view)
              = [''https://master.apps.example.com/console/project/acme-release-pipe-dev'',
                 ''https://master.apps.example.com/console/project/acme-release-pipe-qa'',
                 ''https://master.apps.example.com/console/project/acme-release-pipe-prod'']
         \<and> map br_AppName (pl_CodebaseBranch view) = [''svc-a'']"
    using v ord names pairs jl links apps by (intro conjI)
  then have ex: "\<exists>view. GetCDPipelineByName env_with_row ''release-pipe'' = Inr (Some view)
         \<and> map qs_Order (pl_Stage view) = [0, 1, 2]
         \<and> map qs_Name (pl_Stage view) = [''dev'', ''qa'', ''prod'']
         \<and> map (\<lambda>s. (qs_Name s, qs_Order s)) (pl_Stage view)
              = [(''dev'', 0), (''qa'', 1), (''prod'', 2)]
         \<and> pl_JenkinsLink view
              = ''https://jenkins-acme-edp-cicd.apps.example.com/job/release-pipe-cd-pipeline''
         \<and> map qs_OpenshiftProjectLink (pl_Stage view)
              = [''https://master.apps.example.com/console/project/acme-release-pipe-dev'',
                 ''https://master.apps.example.com/console/project/acme-release-pipe-qa'',
                 ''https://master.apps.example.com/console/project/acme-release-pipe-prod'']
         \<and> map br_AppName (pl_CodebaseBranch view) = [''svc-a'']"
    by (rule exI[of _ view])
  show ?thesis using c row_values(1) o ex by (intro conjI)
qed

subsection \<open>Derived names and links\<close>

text \<open>
  C8, as the code has it. The name of a stage resource is \<open><pipelineName>-<stageName>\<close>;
  the Jenkins link and the project links follow their templates with the tenant and the
  wildcard domain put in. Reading back: the name of the pipeline is recovered from its
  Jenkins link, whatever the names are; the names of the pipeline and of the stage are
  recovered from the name of a stage resource, and from a project link, when the name of
  the stage has no hyphen (the derived name is cut at its last hyphen).
\<close>

theorem C8_derived_names_and_links:
  "meta_Name (st_ObjectMeta (createCrd e t p st)) = p @ ''-'' @ sc_Name st
   \<and> pl_JenkinsLink (createJenkinsLink e row)
       = ''https://jenkins-'' @ Tenant e @ ''-edp-cicd.'' @ dnsWildcard e @ ''/job/''
           @ pl_Name row @ ''-cd-pipeline''
   \<and> map qs_OpenshiftProjectLink (createOpenshiftProjectLinks e stgs p)
       = map (\<lambda>s. ''https://master.'' @ dnsWildcard e @ ''/console/project/''
                    @ Tenant e @ ''-'' @ p @ ''-'' @ qs_Name s) stgs
   \<and> parse_jenkins_link e (pl_JenkinsLink (createJenkinsLink e row)) = pl_Name row
   \<and> (CHR ''-'' \<notin> set (sc_Name st) \<longrightarrow>
        parse_stage_resource_name (meta_Name (st_ObjectMeta (createCrd e t p st))) = (p, sc_Name st))
   \<and> (\<forall>s \<in> set (createOpenshiftProjectLinks e stgs p).
        CHR ''-'' \<notin> set (qs_Name s) \<longrightarrow>
        parse_project_link e (qs_OpenshiftProjectLink s) = (p, qs_Name s))"
proof (intro conjI)
  show "meta_Name (st_ObjectMeta (createCrd e t p st)) = p @ ''-'' @ sc_Name st"
    by (simp add: createCrd_def)
  show "pl_JenkinsLink (createJenkinsLink e row)
       = ''https://jenkins-'' @ Tenant e @ ''-edp-cicd.'' @ dnsWildcard e @ ''/job/''
           @ pl_Name row @ ''-cd-pipeline''"
    by (simp add: createJenkinsLink_def)
  show "map qs_OpenshiftProjectLink (createOpenshiftProjectLinks e stgs p)
       = map (\<lambda>s. ''https://master.'' @ dnsWildcard e @ ''/console/project/''
                    @ Tenant e @ ''-'' @ p @ ''-'' @ qs_Name s) stgs"
    by (simp add: createOpenshiftProjectLinks_def OpenshiftProjectLink_def)
  have "pl_JenkinsLink (createJenkinsLink e row)
       = ''https://'' @ ''jenkins'' @ ''-'' @ Tenant e @ ''-edp-cicd.'' @ dnsWildcard e
          @ ''/job/'' @ (pl_Name row @ ''-'' @ ''cd-pipeline'')"
    by (simp add: createJenkinsLink_def)
  then show "parse_jenkins_link e (pl_JenkinsLink (createJenkinsLink e row)) = pl_Name row"
    by (simp only: parse_jenkins_link_roundtrip)
  show "CHR ''-'' \<notin> set (sc_Name st) \<longrightarrow>
        parse_stage_resource_name (meta_Name (st_ObjectMeta (createCrd e t p st))) = (p, sc_Name st)"
  proof
    assume h: "CHR ''-'' \<notin> set (sc_Name st)"
    have "meta_Name (st_ObjectMeta (createCrd e t p st)) = p @ ''-'' @ sc_Name st"
      by (simp add: createCrd_def)
    then show "parse_stage_resource_name (meta_Name (st_ObjectMeta (createCrd e t p st))) = (p, sc_Name st)"
      using parse_stage_resource_name_roundtrip[OF h, of p] by (simp only:)
  qed
  show "\<forall>s \<in> set (createOpenshiftProjectLinks e stgs p).
        CHR ''-'' \<notin> set (qs_Name s) \<longrightarrow>
        parse_project_link e (qs_OpenshiftProjectLink s) = (p, qs_Name s)"
  proof (intro ballI impI)
    fix s assume s: "s \<in> set (createOpenshiftProjectLinks e stgs p)"
      and h: "CHR ''-'' \<notin> set (qs_Name s)"
    from s obtain s0 where "s = s0\<lparr>qs_OpenshiftProjectLink :=
            OpenshiftProjectLink (dnsWildcard e) @ Tenant e @ ''-'' @ p @ ''-'' @ qs_Name s0\<rparr>"
      by (auto simp: createOpenshiftProjectLinks_def)
    then have "qs_OpenshiftProjectLink s
        = OpenshiftProjectLink (dnsWildcard e) @ Tenant e @ ''-'' @ p @ ''-'' @ qs_Name s"
      by simp
    then show "parse_project_link e (qs_OpenshiftProjectLink s) = (p, qs_Name s)"
      using parse_project_link_roundtrip[OF h, of e p] by (simp only:)
  qed
qed

theorem C8_witness:
  "meta_Name (st_ObjectMeta (createCrd quiet_env 0 ''release-pipe'' build_stage)) = ''release-pipe-build''
   \<and> pl_JenkinsLink (createJenkinsLink quiet_env pipe_row)
       = ''https://jenkins-acme-edp-cicd.apps.example.com/job/release-pipe-cd-pipeline''
   \<and> map qs_OpenshiftProjectLink (createOpenshiftProjectLinks quiet_env [stage_row ''dev'' 0] ''release-pipe'')
       = [''https://master.apps.example.com/console/project/acme-release-pipe-dev'']
   \<and> parse_jenkins_link quiet_env (pl_JenkinsLink (createJenkinsLink quiet_env pipe_row)) = ''release-pipe''
   \<and> CHR ''-'' \<notin> set (sc_Name build_stage)
   \<and> parse_stage_resource_name
        (meta_Name (st_ObjectMeta (createCrd quiet_env 0 ''release-pipe'' build_stage)))
       = (''release-pipe'', ''build'')
   \<and> parse_project_link quiet_env
        ''https://master.apps.example.com/console/project/acme-release-pipe-dev''
       = (''release-pipe'', ''dev'')"
proof -
  have v: "Tenant quiet_env = ''acme''" "dnsWildcard quiet_env = ''apps.example.com''"
    "sc_Name build_stage = ''build''" "pl_Name pipe_row = ''release-pipe''"
    by (simp_all add: quiet_env_def build_stage_def pipe_row_def)
  let ?dev = "(stage_row ''dev'' 0)\<lparr>qs_OpenshiftProjectLink :=
          ''https://master.apps.example.com/console/project/acme-release-pipe-dev''\<rparr>"
  have l: "createOpenshiftProjectLinks quiet_env [stage_row ''dev'' 0] ''release-pipe'' = [?dev]"
    by (simp add: createOpenshiftProjectLinks_def OpenshiftProjectLink_def v stage_row_def)
  have d: "qs_Name ?dev = ''dev''" "CHR ''-'' \<notin> set (qs_Name ?dev)"
    "qs_OpenshiftProjectLink ?dev = ''https://master.apps.example.com/console/project/acme-release-pipe-dev''"
    by (simp_all add: stage_row_def)
  have h: "CHR ''-'' \<notin> set (sc_Name build_stage)" by (simp add: v)
  note inst = C8_derived_names_and_links[of quiet_env 0 "''release-pipe''" build_stage pipe_row
        "[stage_row ''dev'' 0]"]
  note c1 = inst[THEN conjunct1]
    and c2 = inst[THEN conjunct2, THEN conjunct1]
    and c4 = inst[THEN conjunct2, THEN conjunct2, THEN conjunct2, THEN conjunct1]
    and c5 = inst[THEN conjunct2, THEN conjunct2, THEN conjunct2, THEN conjunct2, THEN conjunct1]
    and c6 = inst[THEN conjunct2, THEN conjunct2, THEN conjunct2, THEN conjunct2, THEN conjunct2]
  have a: "meta_Name (st_ObjectMeta (createCrd quiet_env 0 ''release-pipe'' build_stage)) = ''release-pipe-build''"
    using c1 by (simp add: v)
  have b: "pl_JenkinsLink (createJenkinsLink quiet_env pipe_row)
       = ''https://jenkins-acme-edp-cicd.apps.example.com/job/release-pipe-cd-pipeline''"
    using c2 by (simp add: v)
  have c: "map qs_OpenshiftProjectLink (createOpenshiftProjectLinks quiet_env [stage_row ''dev'' 0] ''release-pipe'')
       = [''https://master.apps.example.com/console/project/acme-release-pipe-dev'']"
    by (simp add: l)
  have f: "parse_jenkins_link quiet_env (pl_JenkinsLink (createJenkinsLink quiet_env pipe_row)) = ''release-pipe''"
    using c4 unfolding v(4) .
  from c5 h have "parse_stage_resource_name
        (meta_Name (st_ObjectMeta (createCrd quiet_env 0 ''release-pipe'' build_stage)))
       = (''release-pipe'', sc_Name build_stage)"
    by (rule mp)
  then have g: "parse_stage_resource_name
        (meta_Name (st_ObjectMeta (createCrd quiet_env 0 ''release-pipe'' build_stage)))
       = (''release-pipe'', ''build'')"
    unfolding v(3) .
  have "\<forall>s \<in> set [?dev]. CHR ''-'' \<notin> set (qs_Name s) \<longrightarrow>
        parse_project_link quiet_env (qs_OpenshiftProjectLink s) = (''release-pipe'', qs_Name s)"
    using c6 unfolding l .
  then have k: "parse_project_link quiet_env
        ''https://master.apps.example.com/console/project/acme-release-pipe-dev''
       = (''release-pipe'', ''dev'')"
    using d by simp
  show ?thesis using a b c f h g k by (intro conjI)
qed

text \<open>
  The claim as it was stated asks for the round trip for every pipeline name and every
  stage name. Both may contain hyphens, and then two different pairs give one derived
  name and one project link: the pipeline \<open>aa-bb\<close> with the stage \<open>cc\<close>, and the pipeline
  \<open>aa\<close> with the stage \<open>bb-cc\<close>. No reader can give both pairs back.
\<close>

theorem C8_counterexample:
  "meta_Name (st_ObjectMeta (createCrd quiet_env 0 ''aa-bb'' stage_cc))
     = meta_Name (st_ObjectMeta (createCrd quiet_env 0 ''aa'' stage_bb_cc))
   \<and> map qs_OpenshiftProjectLink (createOpenshiftProjectLinks quiet_env [stage_row ''cc'' 0] ''aa-bb'')
     = map qs_OpenshiftProjectLink (createOpenshiftProjectLinks quiet_env [stage_row ''bb-cc'' 0] ''aa'')
   \<and> (''aa-bb'', sc_Name stage_cc) \<noteq> (''aa'', sc_Name stage_bb_cc)
   \<and> sc_Name stage_cc = ''cc'' \<and> sc_Name stage_bb_cc = ''bb-cc''"
  by (simp add: createCrd_def createOpenshiftProjectLinks_def stage_cc_def stage_bb_cc_def
        build_stage_def stage_row_def)

end
